theory Spec2Isabelle
  imports Main
begin

section \<open>Strings: whitespace, trim, whitespace collapsing\<close>

text \<open>
  JavaScript's \<^verbatim>\<open>\s\<close> and \<^verbatim>\<open>String.prototype.trim\<close> use the same set of
  white space characters. A \<^typ>\<open>char\<close> is one code unit below 256, so the members of
  that set the model can hold are TAB, LF, VT, FF, CR, SPACE and NBSP.
\<close>

definition is_ws :: "char \<Rightarrow> bool" where
  "is_ws c \<longleftrightarrow>
     c = CHR 0x09 \<or> c = CHR 0x0A \<or> c = CHR 0x0B \<or> c = CHR 0x0C \<or> c = CHR 0x0D \<or>
     c = CHR 0x20 \<or> c = CHR 0xA0"

text \<open>\<^verbatim>\<open>s.trim()\<close>\<close>

definition js_trim :: "string \<Rightarrow> string" where
  "js_trim s = rev (dropWhile is_ws (rev (dropWhile is_ws s)))"

text \<open>\<^verbatim>\<open>s.replace(/\s+/g, " ")\<close>: every maximal run of white space becomes one space.\<close>

function collapse_ws :: "string \<Rightarrow> string" where
  "collapse_ws [] = []"
| "collapse_ws (c # cs) =
     (if is_ws c then CHR 0x20 # collapse_ws (dropWhile is_ws cs) else c # collapse_ws cs)"
  by pat_completeness auto
termination
  by (relation "measure length") (auto simp: le_imp_less_Suc length_dropWhile_le)

text \<open>\<^verbatim>\<open>s.trim().replace(/\s+/g, " ")\<close>, the normalisation used on both sides of a comparison.\<close>

definition normalize_ws :: "string \<Rightarrow> string" where
  "normalize_ws s = collapse_ws (js_trim s)"

text \<open>
  Two strings differ only in the length or kind of their white space runs: the same
  characters outside white space, in the same order, with a (non-empty) run of white
  space in the one wherever the other has one.
\<close>

function ws_variant :: "string \<Rightarrow> string \<Rightarrow> bool" where
  "ws_variant [] [] = True"
| "ws_variant (a # as) [] = False"
| "ws_variant [] (b # bs) = False"
| "ws_variant (a # as) (b # bs) =
     (if is_ws a \<and> is_ws b then ws_variant (dropWhile is_ws as) (dropWhile is_ws bs)
      else a = b \<and> ws_variant as bs)"
  by pat_completeness auto
termination
  by (relation "measure (\<lambda>(x, y). length x)") (auto simp: le_imp_less_Suc length_dropWhile_le)

section \<open>The structural fingerprint of an element\<close>

text \<open>
  An element as \<^verbatim>\<open>_getComponentString\<close> sees it: its tag name, its own attributes in
  document order and the serialised markup of its children. \<^verbatim>\<open>cloneNode(true)\<close> is the
  value itself.
\<close>

record element =
  el_tag :: string
  el_attributes :: "(string \<times> string) list"
  el_innerHTML :: string

definition attributesToKeep :: "string list" where
  "attributesToKeep =
     [''type'', ''name'', ''placeholder'', ''aria-label'', ''role'', ''href'', ''title'', ''alt'']"

text \<open>
  \<^verbatim>\<open>clone.outerHTML\<close> is the browser's HTML fragment serialisation: the start tag with
  every attribute as \<^verbatim>\<open> name="value"\<close> (the value escaped in attribute mode), then,
  unless the element is a void element, the children and the end tag.
\<close>

fun escapeAttr :: "string \<Rightarrow> string" where
  "escapeAttr [] = []"
| "escapeAttr (c # cs) =
     (if c = CHR ''&'' then ''&amp;''
      else if c = CHR 0xA0 then ''&nbsp;''
      else if c = CHR 0x22 then ''&quot;''
      else if c = CHR ''<'' then ''&lt;''
      else if c = CHR ''>'' then ''&gt;''
      else [c]) @ escapeAttr cs"

definition serializeAttr :: "string \<times> string \<Rightarrow> string" where
  "serializeAttr a = '' '' @ fst a @ ''='' @ [CHR 0x22] @ escapeAttr (snd a) @ [CHR 0x22]"

definition voidElements :: "string list" where
  "voidElements =
     [''area'', ''base'', ''basefont'', ''bgsound'', ''br'', ''col'', ''embed'', ''frame'',
      ''hr'', ''img'', ''input'', ''keygen'', ''link'', ''meta'', ''param'', ''source'',
      ''track'', ''wbr'']"

definition outerHTML :: "element \<Rightarrow> string" where
  "outerHTML e =
     ''<'' @ el_tag e @ concat (map serializeAttr (el_attributes e)) @ ''>'' @
     (if el_tag e \<in> set voidElements then []
      else el_innerHTML e @ ''</'' @ el_tag e @ ''>'')"

text \<open>
  The attributes of the clone that are not in the allow-list are removed; the
  attributes of its descendants are left as they are.
\<close>

definition removeAttributes :: "element \<Rightarrow> element" where
  "removeAttributes e =
     e\<lparr>el_attributes := filter (\<lambda>a. fst a \<in> set attributesToKeep) (el_attributes e)\<rparr>"

definition getComponentString :: "element \<Rightarrow> string" where
  "getComponentString e = collapse_ws (js_trim (outerHTML (removeAttributes e)))"

section \<open>Data model\<close>

text \<open>\<^verbatim>\<open>useVision: boolean | "fallback"\<close>\<close>

datatype vision = VisionOn | VisionOff | VisionFallback

text \<open>
  An \<^verbatim>\<open>LLMClient\<close> as the handler reads it. Its constructor sets
  \<^verbatim>\<open>hasVision = modelsWithVision.includes(modelName)\<close>.
\<close>

record llmClient =
  modelName :: string
  hasVision :: bool

definition modelsWithVision :: "string list" where
  "modelsWithVision =
     [''gpt-4o'', ''gpt-4o-mini'', ''gpt-4.1'', ''claude-3-5-sonnet-latest'',
      ''claude-3-5-sonnet-20240620'', ''claude-3-5-sonnet-20241022'', ''gpt-4o-2024-08-06'']"

definition newLLMClient :: "string \<Rightarrow> llmClient" where
  "newLLMClient m = \<lparr>modelName = m, hasVision = (m \<in> set modelsWithVision)\<rparr>"

datatype exn =
    Error string
  | PlaywrightCommandException string
  | PlaywrightCommandMethodNotSupportedException string

fun exn_message :: "exn \<Rightarrow> string" where
  "exn_message (Error m) = m"
| "exn_message (PlaywrightCommandException m) = m"
| "exn_message (PlaywrightCommandMethodNotSupportedException m) = m"

text \<open>
  \<^verbatim>\<open>LLMProvider.getClient\<close>: the provider of the model, or an error for an unknown model.
  The table is an object, so a name that every object inherits (\<^verbatim>\<open>constructor\<close>,
  \<^verbatim>\<open>toString\<close>, ...) finds the inherited property, which is truthy and is no provider:
  the error then names the provider, with the property as a template string prints it.
\<close>

definition modelToProviderMap :: "(string \<times> string) list" where
  "modelToProviderMap =
     [(''gpt-4o'', ''openai''), (''gpt-4o-mini'', ''openai''), (''gpt-4o-2024-08-06'', ''openai''),
      (''gpt-4.1'', ''openai''), (''o1-mini'', ''openai''), (''o1-preview'', ''openai''),
      (''claude-3-5-sonnet-latest'', ''anthropic''),
      (''claude-3-5-sonnet-20240620'', ''anthropic''),
      (''claude-3-5-sonnet-20241022'', ''anthropic'')]"

definition nativeFunctionText :: "string \<Rightarrow> string" where
  "nativeFunctionText nm = ''function '' @ nm @ ''() { [native code] }''"

definition inheritedProperties :: "(string \<times> string) list" where
  "inheritedProperties =
     (''constructor'', nativeFunctionText ''Object'') #
     (''__proto__'', ''[object Object]'') #
     map (\<lambda>nm. (nm, nativeFunctionText nm))
       [''toString'', ''toLocaleString'', ''valueOf'', ''hasOwnProperty'', ''isPrototypeOf'',
        ''propertyIsEnumerable'', ''__defineGetter__'', ''__defineSetter__'',
        ''__lookupGetter__'', ''__lookupSetter__'']"

definition getClient :: "string \<Rightarrow> exn + llmClient" where
  "getClient m =
     (case map_of modelToProviderMap m of
        None \<Rightarrow>
          (case map_of inheritedProperties m of
             None \<Rightarrow> Inl (Error (''Unsupported model: '' @ m))
           | Some printed \<Rightarrow> Inl (Error (''Unsupported provider: '' @ printed)))
      | Some provider \<Rightarrow>
          if provider = ''openai'' \<or> provider = ''anthropic'' then Inr (newLLMClient m)
          else Inl (Error (''Unsupported provider: '' @ provider)))"

text \<open>
  An argument of a command is \<^verbatim>\<open>unknown\<close> in the source: a string, a value that is
  not a string (given by what its \<^verbatim>\<open>toString()\<close> returns), or null/undefined.
\<close>

datatype jsarg = JString string | JOther string | JNullish

text \<open>\<^verbatim>\<open>arg?.toString()\<close>\<close>

fun optToString :: "jsarg \<Rightarrow> string option" where
  "optToString (JString s) = Some s"
| "optToString (JOther s) = Some s"
| "optToString JNullish = None"

text \<open>\<^verbatim>\<open>arg?.toString() || ""\<close>\<close>

definition toStringOrEmpty :: "jsarg \<Rightarrow> string" where
  "toStringOrEmpty arg = (case optToString arg of None \<Rightarrow> [] | Some s \<Rightarrow> s)"

text \<open>\<^verbatim>\<open>args[0]?.toString()\<close>\<close>

definition firstArgToString :: "jsarg list \<Rightarrow> string option" where
  "firstArgToString args = (case args of [] \<Rightarrow> None | arg # _ \<Rightarrow> optToString arg)"

record playwrightCommand =
  pc_method :: string
  pc_args :: "string list"

text \<open>A \<^verbatim>\<open>CachedActionStep\<close>: the \<^verbatim>\<open>cacheRecord\<close> that \<^verbatim>\<open>act\<close> writes.\<close>

record cachedActionStep =
  cs_action :: string
  cs_url :: string
  cs_previousSelectors :: "string list"
  cs_playwrightCommand :: playwrightCommand
  cs_componentString :: string
  cs_requestId :: string
  cs_xpaths :: "string list"
  cs_newStepString :: string
  cs_completed :: bool

text \<open>The \<^verbatim>\<open>cacheObj\<close> that a lookup and a removal are given.\<close>

record cacheObj =
  co_url :: string
  co_action :: string
  co_previousSelectors :: "string list"
  co_requestId :: string

record actResult =
  success :: bool
  message :: string
  res_action :: string

text \<open>The parameters of \<^verbatim>\<open>act\<close>.\<close>

record actArgs =
  action :: string
  steps :: string
  chunksSeen :: "nat list"
  llmClient :: llmClient
  useVision :: vision
  verifierUseVision :: bool
  retries :: nat
  requestId :: string
  variables :: "(string \<times> string) list"
  previousSelectors :: "string list"
  skipActionCacheForThisStep :: bool
  domSettleTimeoutMs :: "nat option"

text \<open>What the decision oracle (\<^verbatim>\<open>act\<close> of the inference module) returns when it is not null.\<close>

record actResponse =
  r_element :: nat
  r_method :: string
  r_args :: "jsarg list"
  r_step :: string
  r_why :: string
  r_completed :: bool

text \<open>What \<^verbatim>\<open>window.processDom(chunksSeen)\<close> returns.\<close>

record domResult =
  outputString :: string
  selectorMap :: "nat \<Rightarrow> string list option"
  chunk :: nat
  chunks :: "nat list"

text \<open>The input of the decision oracle and of the verification oracle.\<close>

record actInput =
  ai_action :: string
  ai_domElements :: string
  ai_steps :: string
  ai_llmClient :: llmClient
  ai_screenshot :: "string option"
  ai_requestId :: string
  ai_variables :: "(string \<times> string) list"
  ai_userProvidedInstructions :: "string option"

record verifyInput =
  vi_goal :: string
  vi_steps :: string
  vi_llmClient :: llmClient
  vi_screenshot :: "string option"
  vi_domElements :: "string option"
  vi_requestId :: string

text \<open>The handler's own configuration (\<^verbatim>\<open>this\<close>).\<close>

record handler =
  enableCaching :: bool
  enableRecording :: bool
  userProvidedInstructions :: "string option"

section \<open>The world outside the handler\<close>

text \<open>
  Every call that leaves the handler (to the page, the two oracles, the action cache,
  the recorder) is written to a trace, in order, with its arguments.
\<close>

datatype event =
    EvPage string "string list"
  | EvWaitForSettledDom "nat option"
  | EvWaitFor string nat
  | EvEvaluate string
  | EvPerform string "jsarg list" string
  | EvProcessDom "nat list"
  | EvProcessAllOfDom
  | EvGetScreenshot string
  | EvAct actInput
  | EvVerifyActCompletion verifyInput
  | EvGetActionStep cacheObj
  | EvRemoveActionStep cacheObj
  | EvAddActionStep cachedActionStep
  | EvAddRecorderStep cachedActionStep
  | EvRecordAction string string
  | EvCleanRequestCache string
  | EvDeleteCacheForRequestId string

text \<open>
  The action cache is a store of steps under their keys.

  Modelled from the spec: \<^verbatim>\<open>ActionCache\<close> (lib/cache/ActionCache) is not among the
  sources. The spec gives it the operations \<^verbatim>\<open>get(key)\<close>, \<^verbatim>\<open>put(step)\<close>,
  \<^verbatim>\<open>delete(key)\<close> and \<^verbatim>\<open>deleteAllForSession(sessionId)\<close> over persisted records, the key
  derived from the page URL, the goal text and the chain of previous selectors.
\<close>

type_synonym cacheKey = "string \<times> string \<times> string list"

definition keyOfObj :: "cacheObj \<Rightarrow> cacheKey" where
  "keyOfObj c = (co_url c, co_action c, co_previousSelectors c)"

definition keyOfStep :: "cachedActionStep \<Rightarrow> cacheKey" where
  "keyOfStep s = (cs_url s, cs_action s, cs_previousSelectors s)"

record world =
  actionCache :: "cacheKey \<Rightarrow> cachedActionStep option"
  trace :: "event list"

text \<open>
  What the world answers. Each answer may depend on the whole history of calls (the
  trace so far), so a page that changes under the handler and oracles that answer
  differently each time are covered.
  \<^item> \<open>fillInVariables\<close> is the function of that name of the inference module (not among
    the sources), taken as a parameter;
  \<^item> \<open>pageFails nm args\<close>: the page operation \<open>nm\<close> raises an error with this message;
  \<^item> \<open>settleFails t\<close>: \<^verbatim>\<open>_waitForSettledDom(t)\<close> raises an error with this message;
  \<^item> \<open>pageUrl\<close>: \<^verbatim>\<open>page.url()\<close>;
  \<^item> \<open>attached xpath t\<close>: \<^verbatim>\<open>waitFor({state: "attached", timeout: t})\<close> on the locator
    succeeds;
  \<^item> \<open>liveElement xpath\<close>: the element \<^verbatim>\<open>locator.evaluate\<close> runs on, or its failure;
  \<^item> \<open>locatorHasMethod m\<close>: \<^verbatim>\<open>typeof locator[m] === "function"\<close>;
  \<^item> \<open>newOpenedTab\<close>: the URL of a tab opened within the 1.5 s after a click;
  \<^item> \<open>processDom\<close>, \<open>processAllOfDom\<close>, \<open>getScreenshot\<close>: the in-page serialisation and
    the screenshot service;
  \<^item> \<open>actOracle\<close>, \<open>verifyOracle\<close>: the decision and the verification oracle.
\<close>

record env =
  fillInVariables :: "string \<Rightarrow> (string \<times> string) list \<Rightarrow> string"
  pageFails :: "string \<Rightarrow> string list \<Rightarrow> event list \<Rightarrow> string option"
  settleFails :: "nat option \<Rightarrow> event list \<Rightarrow> string option"
  pageUrl :: "event list \<Rightarrow> string"
  attached :: "string \<Rightarrow> nat \<Rightarrow> event list \<Rightarrow> bool"
  liveElement :: "string \<Rightarrow> event list \<Rightarrow> string + element"
  locatorHasMethod :: "string \<Rightarrow> bool"
  newOpenedTab :: "event list \<Rightarrow> string option"
  processDom :: "nat list \<Rightarrow> event list \<Rightarrow> string + domResult"
  processAllOfDom :: "event list \<Rightarrow> string + string \<times> (nat \<Rightarrow> string list option)"
  getScreenshot :: "string \<Rightarrow> event list \<Rightarrow> string + string"
  actOracle :: "actInput \<Rightarrow> event list \<Rightarrow> string + actResponse option"
  verifyOracle :: "verifyInput \<Rightarrow> event list \<Rightarrow> string + bool"

subsection \<open>Asynchronous code that may raise\<close>

text \<open>
  An awaited computation takes the world and returns the raised exception (\<open>Inl\<close>) or
  its value (\<open>Inr\<close>), with the world after it.
\<close>

type_synonym 'a io = "world \<Rightarrow> (exn + 'a) \<times> world"

definition ret :: "'a \<Rightarrow> 'a io" where
  "ret x w = (Inr x, w)"

definition raise :: "exn \<Rightarrow> 'a io" where
  "raise e w = (Inl e, w)"

definition andThen :: "'a io \<Rightarrow> ('a \<Rightarrow> 'b io) \<Rightarrow> 'b io" where
  "andThen m f w = (case m w of (Inl e, w') \<Rightarrow> (Inl e, w') | (Inr x, w') \<Rightarrow> f x w')"

text \<open>\<^verbatim>\<open>try { m } catch (e) { handle(e) }\<close>\<close>

definition tryCatch :: "'a io \<Rightarrow> (exn \<Rightarrow> 'a io) \<Rightarrow> 'a io" where
  "tryCatch m handle w = (case m w of (Inl e, w') \<Rightarrow> handle e w' | (Inr x, w') \<Rightarrow> (Inr x, w'))"

definition emit :: "event \<Rightarrow> world \<Rightarrow> world" where
  "emit ev w = w\<lparr>trace := trace w @ [ev]\<rparr>"

text \<open>A page operation without a result: it is logged, and it raises when the world says so.\<close>

definition page_op :: "env \<Rightarrow> string \<Rightarrow> string list \<Rightarrow> unit io" where
  "page_op E nm args w =
     (case pageFails E nm args (trace w) of
        None \<Rightarrow> (Inr (), emit (EvPage nm args) w)
      | Some m \<Rightarrow> (Inl (Error m), emit (EvPage nm args) w))"

text \<open>The same operation where the source swallows the failure (\<^verbatim>\<open>.catch\<close> that only logs).\<close>

definition page_op_ignore :: "env \<Rightarrow> string \<Rightarrow> string list \<Rightarrow> unit io" where
  "page_op_ignore E nm args = tryCatch (page_op E nm args) (\<lambda>e. ret ())"

definition getUrl :: "env \<Rightarrow> string io" where
  "getUrl E w = (Inr (pageUrl E (trace w)), w)"

text \<open>\<^verbatim>\<open>stagehandPage._waitForSettledDom(domSettleTimeoutMs)\<close>\<close>

definition waitForSettledDom :: "env \<Rightarrow> nat option \<Rightarrow> unit io" where
  "waitForSettledDom E t w =
     (case settleFails E t (trace w) of
        None \<Rightarrow> (Inr (), emit (EvWaitForSettledDom t) w)
      | Some m \<Rightarrow> (Inl (Error m), emit (EvWaitForSettledDom t) w))"

text \<open>\<^verbatim>\<open>locator.waitFor({state: "attached", timeout})\<close>: \<open>True\<close> when it resolves.\<close>

definition waitForAttached :: "env \<Rightarrow> string \<Rightarrow> nat \<Rightarrow> bool io" where
  "waitForAttached E xpath t w = (Inr (attached E xpath t (trace w)), emit (EvWaitFor xpath t) w)"

text \<open>\<^verbatim>\<open>_getComponentString(locator)\<close>: the fingerprint of the element the locator is on.\<close>

definition getComponentString_op :: "env \<Rightarrow> string \<Rightarrow> string io" where
  "getComponentString_op E xpath w =
     (case liveElement E xpath (trace w) of
        Inl m \<Rightarrow> (Inl (Error m), emit (EvEvaluate xpath) w)
      | Inr el \<Rightarrow> (Inr (getComponentString el), emit (EvEvaluate xpath) w))"

definition processDom_op :: "env \<Rightarrow> nat list \<Rightarrow> domResult io" where
  "processDom_op E seen w =
     (case processDom E seen (trace w) of
        Inl m \<Rightarrow> (Inl (Error m), emit (EvProcessDom seen) w)
      | Inr d \<Rightarrow> (Inr d, emit (EvProcessDom seen) w))"

definition processAllOfDom_op :: "env \<Rightarrow> (string \<times> (nat \<Rightarrow> string list option)) io" where
  "processAllOfDom_op E w =
     (case processAllOfDom E (trace w) of
        Inl m \<Rightarrow> (Inl (Error m), emit EvProcessAllOfDom w)
      | Inr d \<Rightarrow> (Inr d, emit EvProcessAllOfDom w))"

definition getScreenshot_op :: "env \<Rightarrow> string \<Rightarrow> string io" where
  "getScreenshot_op E kind w =
     (case getScreenshot E kind (trace w) of
        Inl m \<Rightarrow> (Inl (Error m), emit (EvGetScreenshot kind) w)
      | Inr b \<Rightarrow> (Inr b, emit (EvGetScreenshot kind) w))"

text \<open>The decision oracle: \<^verbatim>\<open>act({...})\<close> of the inference module.\<close>

definition act_op :: "env \<Rightarrow> actInput \<Rightarrow> actResponse option io" where
  "act_op E inp w =
     (case actOracle E inp (trace w) of
        Inl m \<Rightarrow> (Inl (Error m), emit (EvAct inp) w)
      | Inr r \<Rightarrow> (Inr r, emit (EvAct inp) w))"

text \<open>The verification oracle: \<^verbatim>\<open>verifyActCompletion({...})\<close> of the inference module.\<close>

definition verifyActCompletion_op :: "env \<Rightarrow> verifyInput \<Rightarrow> bool io" where
  "verifyActCompletion_op E inp w =
     (case verifyOracle E inp (trace w) of
        Inl m \<Rightarrow> (Inl (Error m), emit (EvVerifyActCompletion inp) w)
      | Inr b \<Rightarrow> (Inr b, emit (EvVerifyActCompletion inp) w))"

subsection \<open>The action cache, the recorder and the request cache\<close>

definition getActionStep :: "cacheObj \<Rightarrow> cachedActionStep option io" where
  "getActionStep c w = (Inr (actionCache w (keyOfObj c)), emit (EvGetActionStep c) w)"

definition removeActionStep :: "cacheObj \<Rightarrow> unit io" where
  "removeActionStep c w =
     (Inr (), emit (EvRemoveActionStep c) (w\<lparr>actionCache := (actionCache w)(keyOfObj c := None)\<rparr>))"

text \<open>
  \<^verbatim>\<open>this.actionCache.addActionStep(cacheRecord).catch(...)\<close> and
  \<^verbatim>\<open>this.actionCache.deleteCacheForRequestId(requestId)\<close> are not awaited: the handler
  asks for the write and for the purge and goes on, and a failure of either never reaches
  it. The trace holds the request. When the store carries it out is not decided by the
  handler, so the store of the world, which is what the awaited \<^verbatim>\<open>getActionStep\<close>
  and \<^verbatim>\<open>removeActionStep\<close> of this call see, is left as it is. The lookups of one
  call of act do not depend on it: a write is followed by success or by a call with a
  longer chain of previous selectors, and the chain is part of the key.
\<close>

definition addActionStep :: "cachedActionStep \<Rightarrow> unit io" where
  "addActionStep s w = (Inr (), emit (EvAddActionStep s) w)"

definition deleteCacheForRequestId :: "string \<Rightarrow> unit io" where
  "deleteCacheForRequestId rid w = (Inr (), emit (EvDeleteCacheForRequestId rid) w)"

text \<open>\<^verbatim>\<open>llmProvider.cleanRequestCache(requestId)\<close>\<close>

definition cleanRequestCache :: "string \<Rightarrow> unit io" where
  "cleanRequestCache rid w = (Inr (), emit (EvCleanRequestCache rid) w)"

text \<open>
  \<^verbatim>\<open>if (this.enableCaching) { cleanRequestCache(requestId); deleteCacheForRequestId(requestId) }\<close>
\<close>

definition purgeIfCaching :: "handler \<Rightarrow> string \<Rightarrow> unit io" where
  "purgeIfCaching H rid =
     (if enableCaching H
      then andThen (cleanRequestCache rid) (\<lambda>_. deleteCacheForRequestId rid)
      else ret ())"

text \<open>\<^verbatim>\<open>_recordAction(action, result)\<close>: an entry of the handler's \<^verbatim>\<open>actions\<close> map.\<close>

definition recordAction :: "string \<Rightarrow> string \<Rightarrow> unit io" where
  "recordAction a r w = (Inr (), emit (EvRecordAction a r) w)"

text \<open>\<^verbatim>\<open>_recordActionIfEnabled(entry)\<close>: not awaited, so it cannot raise into the caller.\<close>

definition recordActionIfEnabled :: "handler \<Rightarrow> cachedActionStep \<Rightarrow> unit io" where
  "recordActionIfEnabled H s w =
     (if enableRecording H then (Inr (), emit (EvAddRecorderStep s) w) else (Inr (), w))"

section \<open>The command executor\<close>

text \<open>The characters of the text are typed one by one; the random delay is not modelled.\<close>

fun typeChars :: "env \<Rightarrow> string \<Rightarrow> unit io" where
  "typeChars E [] = ret ()"
| "typeChars E (c # cs) = andThen (page_op E ''keyboard.type'' [[c]]) (\<lambda>_. typeChars E cs)"

text \<open>The race for a new tab after a click: the URL of the tab that opened, if one did.\<close>

definition waitForNewTab :: "env \<Rightarrow> string option io" where
  "waitForNewTab E w = (Inr (newOpenedTab E (trace w)), emit (EvPage ''context.once'' [''page'']) w)"

text \<open>
  \<^verbatim>\<open>_performPlaywrightMethod(method, args, xpath, domSettleTimeoutMs)\<close>. The call
  itself is written to the trace (the source logs it first), then the branches follow
  in the source's order.
\<close>

definition logPerform :: "string \<Rightarrow> jsarg list \<Rightarrow> string \<Rightarrow> unit io" where
  "logPerform m args xpath w = (Inr (), emit (EvPerform m args xpath) w)"

definition performPlaywrightMethod ::
  "env \<Rightarrow> string \<Rightarrow> jsarg list \<Rightarrow> string \<Rightarrow> nat option \<Rightarrow> unit io" where
  "performPlaywrightMethod E m args xpath t =
     andThen (logPerform m args xpath) (\<lambda>_.
     andThen
       (if m = ''scrollIntoView'' then page_op_ignore E ''locator.scrollIntoView'' [xpath]
        else if m = ''fill'' \<or> m = ''type'' then
          tryCatch
            (andThen (page_op E ''locator.fill'' [xpath, []]) (\<lambda>_.
             andThen (page_op E ''locator.click'' [xpath]) (\<lambda>_.
             case firstArgToString args of
               None \<Rightarrow> raise (Error ''text is not iterable'')
             | Some txt \<Rightarrow> typeChars E txt)))
            (\<lambda>e. raise (PlaywrightCommandException (exn_message e)))
        else if m = ''press'' then
          tryCatch
            (page_op E ''keyboard.press''
               (case firstArgToString args of None \<Rightarrow> [] | Some k \<Rightarrow> [k]))
            (\<lambda>e. raise (PlaywrightCommandException (exn_message e)))
        else if locatorHasMethod E m then
          andThen
            (tryCatch (page_op E (''locator.'' @ m) (xpath # map toStringOrEmpty args))
               (\<lambda>e. raise (PlaywrightCommandException (exn_message e))))
            (\<lambda>_. if m = ''click'' then
                   andThen (waitForNewTab E) (\<lambda>newTab.
                   andThen
                     (case newTab of
                        None \<Rightarrow> ret ()
                      | Some url \<Rightarrow>
                          andThen (page_op E ''newOpenedTab.close'' []) (\<lambda>_.
                          andThen (page_op E ''page.goto'' [url]) (\<lambda>_.
                          andThen (page_op E ''page.waitForLoadState'' [''domcontentloaded'']) (\<lambda>_.
                          waitForSettledDom E t))))
                     (\<lambda>_. page_op_ignore E ''page.waitForLoadState'' [''networkidle'']))
                 else ret ())
        else raise (PlaywrightCommandMethodNotSupportedException
                      (''Method '' @ m @ '' not supported'')))
       (\<lambda>_. waitForSettledDom E t))"

section \<open>The verification step\<close>

definition liftE :: "exn + 'a \<Rightarrow> 'a io" where
  "liftE r = (case r of Inl e \<Rightarrow> raise e | Inr x \<Rightarrow> ret x)"

text \<open>
  \<^verbatim>\<open>_verifyActionCompletion({completed, verifierUseVision, requestId, action, steps,
  llmClient, domSettleTimeoutMs})\<close>
\<close>

definition verifyActionCompletion ::
  "env \<Rightarrow> bool \<Rightarrow> bool \<Rightarrow> string \<Rightarrow> string \<Rightarrow> string \<Rightarrow> llmClient \<Rightarrow> nat option \<Rightarrow> bool io" where
  "verifyActionCompletion E completed verifierVision rid act_goal stps client t =
     (if \<not> completed then ret False
      else
        andThen (waitForSettledDom E t) (\<lambda>_.
        andThen
          (if modelName client = ''o1-mini'' \<or> modelName client = ''o1-preview'' \<or>
              take 3 (modelName client) = ''o1-''
           then liftE (getClient ''gpt-4o'') else ret client) (\<lambda>verifyClient.
        andThen (processAllOfDom_op E) (\<lambda>all_dom.
        andThen
          (if verifierVision then
             andThen
               (tryCatch (getScreenshot_op E ''fullpage'') (\<lambda>e. getScreenshot_op E ''fullpage''))
               (\<lambda>shot. ret (None, Some shot))
           else andThen (processAllOfDom_op E) (\<lambda>d. ret (Some (fst d), None))) (\<lambda>evidence.
        verifyActCompletion_op E
          \<lparr>vi_goal = act_goal, vi_steps = stps, vi_llmClient = verifyClient,
           vi_screenshot = snd evidence, vi_domElements = fst evidence,
           vi_requestId = rid\<rparr>)))))"

section \<open>Validation of a cached step\<close>

text \<open>
  \<^verbatim>\<open>_checkIfCachedStepIsValid_oneXpath({xpath, savedComponentString})\<close>.
  \<^verbatim>\<open>getElement(xpath)\<close> waits for the element with its default timeout of 5000 ms and
  returns null when the wait fails. The fingerprint is computed twice, the first time
  for the log. Whatever is raised makes the candidate invalid.
\<close>

definition checkIfCachedStepIsValid_oneXpath :: "env \<Rightarrow> string \<Rightarrow> string \<Rightarrow> bool io" where
  "checkIfCachedStepIsValid_oneXpath E xpath savedComponentString =
     tryCatch
       (andThen (waitForAttached E xpath 5000) (\<lambda>locator.
        if \<not> locator then ret False
        else
          andThen (getComponentString_op E xpath) (\<lambda>_.
          andThen (getComponentString_op E xpath) (\<lambda>currentComponent.
          if currentComponent = [] \<or> savedComponentString = [] then ret False
          else if normalize_ws currentComponent \<noteq> normalize_ws savedComponentString
          then ret False
          else ret True))))
       (\<lambda>e. ret False)"

text \<open>The loop of \<^verbatim>\<open>_getValidCachedStepXpath\<close> over the reversed list.\<close>

fun firstValidXpath :: "env \<Rightarrow> string list \<Rightarrow> string \<Rightarrow> string option io" where
  "firstValidXpath E [] saved = ret None"
| "firstValidXpath E (xpath # rest) saved =
     andThen (checkIfCachedStepIsValid_oneXpath E xpath saved) (\<lambda>isValid.
     if isValid then ret (Some xpath) else firstValidXpath E rest saved)"

definition getValidCachedStepXpath :: "env \<Rightarrow> string list \<Rightarrow> string \<Rightarrow> string option io" where
  "getValidCachedStepXpath E xpaths savedComponentString =
     firstValidXpath E (rev xpaths) savedComponentString"

section \<open>Replaying a cached step\<close>

text \<open>
  What one call of \<^verbatim>\<open>act\<close> ends with: a result, or a call of \<^verbatim>\<open>act\<close> with new
  arguments whose result it returns (every recursive call of the source is a
  \<^verbatim>\<open>return this.act({...})\<close>).
\<close>

datatype outcome = Return actResult | Recurse actArgs

text \<open>
  The replay of \<^verbatim>\<open>_runCachedActionIfAvailable\<close>, from the substitution of the
  variables to the end of its \<^verbatim>\<open>try\<close> block. \<^verbatim>\<open>cachedStep.xpaths[0]\<close> is read when a
  member of \<^verbatim>\<open>xpaths\<close> has been validated, so the list is not empty there.
\<close>

definition replayCachedStep ::
  "handler \<Rightarrow> env \<Rightarrow> actArgs \<Rightarrow> cachedActionStep \<Rightarrow> string \<Rightarrow> outcome option io" where
  "replayCachedStep H E a cachedStep validXpath =
     (let cmd = \<lparr>pc_method = pc_method (cs_playwrightCommand cachedStep),
                 pc_args = map (\<lambda>arg. fillInVariables E arg (variables a))
                             (pc_args (cs_playwrightCommand cachedStep))\<rparr> in
      andThen (performPlaywrightMethod E (pc_method cmd) (map JString (pc_args cmd)) validXpath
                 (domSettleTimeoutMs a)) (\<lambda>_.
      andThen (getUrl E) (\<lambda>url.
      andThen (recordActionIfEnabled H
                 \<lparr>cs_action = action a, cs_url = url, cs_previousSelectors = [],
                  cs_playwrightCommand = cmd,
                  cs_componentString = cs_componentString cachedStep,
                  cs_requestId = requestId a, cs_xpaths = [validXpath],
                  cs_newStepString = cs_newStepString cachedStep,
                  cs_completed = cs_completed cachedStep\<rparr>) (\<lambda>_.
      andThen (processDom_op E (chunksSeen a)) (\<lambda>_.
      andThen
        (if cs_completed cachedStep
         then verifyActionCompletion E True (verifierUseVision a) (requestId a) (action a)
                (steps a @ cs_newStepString cachedStep) (llmClient a) (domSettleTimeoutMs a)
         else ret False) (\<lambda>actionCompleted.
      if actionCompleted then
        ret (Some (Return \<lparr>success = True,
                           message = ''action completed successfully using cached step'',
                           res_action = action a\<rparr>))
      else
        ret (Some (Recurse (a\<lparr>steps := steps a @ cs_newStepString cachedStep,
                              previousSelectors :=
                                previousSelectors a @ take 1 (cs_xpaths cachedStep),
                              skipActionCacheForThisStep := False\<rparr>)))))))))"

text \<open>
  \<^verbatim>\<open>_runCachedActionIfAvailable({...})\<close>: \<open>None\<close> is the source's \<^verbatim>\<open>null\<close>. The test
  \<^verbatim>\<open>!validXpath\<close> also holds of the empty string.
\<close>

definition runCachedActionIfAvailable :: "handler \<Rightarrow> env \<Rightarrow> actArgs \<Rightarrow> outcome option io" where
  "runCachedActionIfAvailable H E a =
     (if \<not> enableCaching H then ret None
      else
        andThen (getUrl E) (\<lambda>url.
        andThen (getActionStep
                   \<lparr>co_url = url, co_action = action a,
                    co_previousSelectors = previousSelectors a,
                    co_requestId = requestId a\<rparr>) (\<lambda>cached.
        case cached of
          None \<Rightarrow> ret None
        | Some cachedStep \<Rightarrow>
            tryCatch
              (andThen (getValidCachedStepXpath E (cs_xpaths cachedStep)
                          (cs_componentString cachedStep)) (\<lambda>valid.
               case valid of
                 None \<Rightarrow>
                   andThen (removeActionStep
                              \<lparr>co_url = url, co_action = action a,
                               co_previousSelectors = previousSelectors a,
                               co_requestId = requestId a\<rparr>) (\<lambda>_. ret None)
               | Some validXpath \<Rightarrow>
                   if validXpath = [] then
                     andThen (removeActionStep
                                \<lparr>co_url = url, co_action = action a,
                                 co_previousSelectors = previousSelectors a,
                                 co_requestId = requestId a\<rparr>) (\<lambda>_. ret None)
                   else replayCachedStep H E a cachedStep validXpath))
              (\<lambda>exception.
                 andThen (removeActionStep
                            \<lparr>co_url = url, co_action = action a,
                             co_previousSelectors = previousSelectors a,
                             co_requestId = requestId a\<rparr>) (\<lambda>_. ret None)))))"

section \<open>The orchestrator\<close>

definition newline :: string where
  "newline = [CHR 0x0A]"

text \<open>\<^verbatim>\<open>(!steps.endsWith("\n") ? "\n" : "")\<close>\<close>

definition newlineUnlessEnded :: "string \<Rightarrow> string" where
  "newlineUnlessEnded s = (if s \<noteq> [] \<and> last s = CHR 0x0A then [] else newline)"

text \<open>\<^verbatim>\<open>s.split(c)\<close> for a separator of one character.\<close>

fun splitOn :: "char \<Rightarrow> string \<Rightarrow> string list" where
  "splitOn c [] = [[]]"
| "splitOn c (x # xs) =
     (if x = c then [] # splitOn c xs
      else (case splitOn c xs of [] \<Rightarrow> [[x]] | y # ys \<Rightarrow> (x # y) # ys))"

text \<open>The decimal digits of a number, as \<^verbatim>\<open>`${elementId}`\<close> prints them.\<close>

function showNat :: "nat \<Rightarrow> string" where
  "showNat n =
     (if n < 10 then [''0123456789'' ! n]
      else showNat (n div 10) @ [''0123456789'' ! (n mod 10)])"
  by pat_completeness auto
termination
  by (relation "measure id") auto

declare showNat.simps [simp del]

text \<open>
  \<^verbatim>\<open>elementLines.find((line) => line.startsWith(`${elementId}:`))?.split(":")[1]
  || "Element not found"\<close>
\<close>

definition elementTextOf :: "string \<Rightarrow> nat \<Rightarrow> string" where
  "elementTextOf out eid =
     (case find (\<lambda>line. take (length (showNat eid @ '':'')) line = showNat eid @ '':'')
             (splitOn (CHR 0x0A) out) of
        None \<Rightarrow> ''Element not found''
      | Some line \<Rightarrow>
          (case splitOn (CHR '':'') line of
             _ # t # _ \<Rightarrow> if t = [] then ''Element not found'' else t
           | _ \<Rightarrow> ''Element not found''))"

text \<open>The narrative fragment of a step, built after its command has run.\<close>

definition newStepStringOf :: "string \<Rightarrow> actResponse \<Rightarrow> string \<Rightarrow> string" where
  "newStepStringOf stps response elementText =
     newlineUnlessEnded stps @
     ''## Step: '' @ r_step response @ newline @
     ''  Element: '' @ elementText @ newline @
     ''  Action: '' @ r_method response @ newline @
     ''  Reasoning: '' @ r_why response @ newline"

text \<open>What is added to the narrative when the URL of the page has changed.\<close>

definition urlChangeNote :: "string \<Rightarrow> string \<Rightarrow> string" where
  "urlChangeNote initialUrl urlNow =
     (if urlNow \<noteq> initialUrl then
        ''  Result (Important): Page URL changed from '' @ initialUrl @
        '' to '' @ urlNow @ newline @ newline
      else [])"

text \<open>\<^verbatim>\<open>if (variables) { ... args[index] = fillInVariables(arg, variables) ... }\<close> for the string arguments.\<close>

definition substituteArgs :: "env \<Rightarrow> (string \<times> string) list \<Rightarrow> jsarg list \<Rightarrow> jsarg list" where
  "substituteArgs E vars args =
     map (\<lambda>arg. case arg of JString str \<Rightarrow> JString (fillInVariables E str vars) | _ \<Rightarrow> arg) args"

text \<open>The loop over the candidate selectors of a decision: the first that is attached.\<close>

fun findXpath :: "env \<Rightarrow> string list \<Rightarrow> string option io" where
  "findXpath E [] = ret None"
| "findXpath E (xp # rest) =
     andThen (waitForAttached E xp 2000) (\<lambda>found.
     if found then ret (Some xp) else findXpath E rest)"

definition scrolledStep :: "string \<Rightarrow> string" where
  "scrolledStep stps = newlineUnlessEnded stps @ ''## Step: Scrolled to another section'' @ newline"

text \<open>
  The decision was null (\<^verbatim>\<open>if (!response)\<close>). The recursive calls of this branch do
  not pass \<^verbatim>\<open>retries\<close>, so the callee takes its default, 0.
\<close>

definition act_noResponse :: "handler \<Rightarrow> env \<Rightarrow> actArgs \<Rightarrow> domResult \<Rightarrow> outcome io" where
  "act_noResponse H E a pd =
     (if length (chunksSeen a) + 1 < length (chunks pd) then
        ret (Recurse (a\<lparr>steps := steps a @ scrolledStep (steps a),
                        chunksSeen := chunksSeen a @ [chunk pd],
                        retries := 0\<rparr>))
      else if useVision a = VisionFallback then
        andThen (page_op E ''scrollToHeight'' [''0'']) (\<lambda>_.
        ret (Recurse (a\<lparr>useVision := VisionOn, retries := 0\<rparr>)))
      else
        andThen (purgeIfCaching H (requestId a)) (\<lambda>_.
        ret (Return \<lparr>success = False, message = ''Action was not able to be completed.'',
                     res_action = action a\<rparr>)))"

text \<open>
  The inner \<^verbatim>\<open>try\<close> block: resolve a selector, take the fingerprint, substitute the
  variables, run the command, write the cache record, verify, and continue or return.
  \<^verbatim>\<open>selectorMap[elementId]\<close> may be undefined, and the loop over it then raises.
\<close>

definition act_inner ::
  "handler \<Rightarrow> env \<Rightarrow> actArgs \<Rightarrow> domResult \<Rightarrow> actResponse \<Rightarrow> outcome io" where
  "act_inner H E a pd response =
     andThen (getUrl E) (\<lambda>initialUrl.
     case selectorMap pd (r_element response) of
       None \<Rightarrow> raise (Error ''xpaths is not iterable'')
     | Some xpaths \<Rightarrow>
         andThen (findXpath E xpaths) (\<lambda>found.
         case found of
           None \<Rightarrow> raise (Error ''None of the provided XPaths could be located.'')
         | Some foundXpath \<Rightarrow>
             if foundXpath = [] then
               raise (Error ''None of the provided XPaths could be located.'')
             else
               andThen (getUrl E) (\<lambda>originalUrl.
               andThen (getComponentString_op E foundXpath) (\<lambda>componentString.
               andThen (performPlaywrightMethod E (r_method response)
                          (substituteArgs E (variables a) (r_args response))
                          foundXpath (domSettleTimeoutMs a)) (\<lambda>_.
               let newStepString =
                     newStepStringOf (steps a) response
                       (elementTextOf (outputString pd) (r_element response));
                   cacheRecord =
                     \<lparr>cs_action = action a, cs_url = originalUrl,
                      cs_previousSelectors = previousSelectors a,
                      cs_playwrightCommand =
                        \<lparr>pc_method = r_method response,
                         pc_args = map toStringOrEmpty (r_args response)\<rparr>,
                      cs_componentString = componentString,
                      cs_requestId = requestId a, cs_xpaths = xpaths,
                      cs_newStepString = newStepString,
                      cs_completed = r_completed response\<rparr> in
               andThen (if enableCaching H then addActionStep cacheRecord else ret ()) (\<lambda>_.
               andThen (recordActionIfEnabled H cacheRecord) (\<lambda>_.
               andThen (getUrl E) (\<lambda>urlNow.
               let stps = steps a @ newStepString @ urlChangeNote initialUrl urlNow in
               andThen
                 (tryCatch
                    (verifyActionCompletion E (r_completed response) (verifierUseVision a)
                       (requestId a) (action a) stps (llmClient a) (domSettleTimeoutMs a))
                    (\<lambda>error. ret True)) (\<lambda>actionCompleted.
               if \<not> actionCompleted then
                 ret (Recurse (a\<lparr>steps := stps,
                                 previousSelectors := previousSelectors a @ [foundXpath],
                                 skipActionCacheForThisStep := False,
                                 retries := 0\<rparr>))
               else
                 andThen (recordAction (action a) (r_step response)) (\<lambda>_.
                 ret (Return \<lparr>success = True,
                              message = ''Action completed successfully: '' @ stps @
                                        r_step response,
                              res_action = action a\<rparr>)))))))))))"

text \<open>The \<^verbatim>\<open>catch\<close> of the inner \<^verbatim>\<open>try\<close> block.\<close>

definition act_catch :: "handler \<Rightarrow> actArgs \<Rightarrow> exn \<Rightarrow> outcome io" where
  "act_catch H a error =
     (if retries a < 2 then ret (Recurse (a\<lparr>retries := retries a + 1\<rparr>))
      else
        andThen (recordAction (action a) []) (\<lambda>_.
        andThen (purgeIfCaching H (requestId a)) (\<lambda>_.
        ret (Return \<lparr>success = False, message = ''error performing action - a'',
                     res_action = action a\<rparr>))))"

text \<open>
  The model has no vision but vision was asked for: both flags are switched off
  (the parameters \<^verbatim>\<open>useVision\<close> and \<^verbatim>\<open>verifierUseVision\<close> are assigned to).
\<close>

definition downgradeVision :: "actArgs \<Rightarrow> actArgs" where
  "downgradeVision a =
     (if \<not> hasVision (llmClient a) \<and> (useVision a \<noteq> VisionOff \<or> verifierUseVision a)
      then a\<lparr>useVision := VisionOff, verifierUseVision := False\<rparr>
      else a)"

text \<open>Fresh inference: from the vision check to the end of the outer \<^verbatim>\<open>try\<close> block.\<close>

definition act_fresh :: "handler \<Rightarrow> env \<Rightarrow> actArgs \<Rightarrow> outcome io" where
  "act_fresh H E a0 =
     (let a = downgradeVision a0 in
      andThen (processDom_op E (chunksSeen a)) (\<lambda>pd.
      andThen
        (if useVision a = VisionOn then
           (if \<not> hasVision (llmClient a) then ret None
            else andThen (getScreenshot_op E ''annotated'') (\<lambda>shot. ret (Some shot)))
         else ret None) (\<lambda>annotatedScreenshot.
      andThen (act_op E
                 \<lparr>ai_action = action a, ai_domElements = outputString pd,
                  ai_steps = steps a, ai_llmClient = llmClient a,
                  ai_screenshot = annotatedScreenshot, ai_requestId = requestId a,
                  ai_variables = variables a,
                  ai_userProvidedInstructions = userProvidedInstructions H\<rparr>) (\<lambda>response.
      andThen (page_op E ''cleanupDomDebug'' []) (\<lambda>_.
      case response of
        None \<Rightarrow> act_noResponse H E a pd
      | Some r \<Rightarrow> tryCatch (act_inner H E a pd r) (act_catch H a))))))"

text \<open>The outer \<^verbatim>\<open>try\<close> block of \<^verbatim>\<open>act\<close>.\<close>

definition act_try :: "handler \<Rightarrow> env \<Rightarrow> actArgs \<Rightarrow> outcome io" where
  "act_try H E a =
     andThen (waitForSettledDom E (domSettleTimeoutMs a)) (\<lambda>_.
     andThen (page_op E ''startDomDebug'' []) (\<lambda>_.
     if enableCaching H \<and> \<not> skipActionCacheForThisStep a then
       andThen (runCachedActionIfAvailable H E a) (\<lambda>response.
       case response of
         Some out \<Rightarrow> ret out
       | None \<Rightarrow> ret (Recurse (a\<lparr>skipActionCacheForThisStep := True\<rparr>)))
     else act_fresh H E a))"

text \<open>One call of \<^verbatim>\<open>act\<close> up to its result or its recursive call: the outer \<^verbatim>\<open>try\<close> with its \<^verbatim>\<open>catch\<close>.\<close>

definition act_step :: "handler \<Rightarrow> env \<Rightarrow> actArgs \<Rightarrow> outcome io" where
  "act_step H E a =
     tryCatch (act_try H E a)
       (\<lambda>error.
          andThen (purgeIfCaching H (requestId a)) (\<lambda>_.
          ret (Return \<lparr>success = False,
                       message = ''Error performing action - C: '' @ exn_message error,
                       res_action = action a\<rparr>)))"



section \<open>Definitions for the statements\<close>

text \<open>The start tag of an element without its angle brackets.\<close>

definition startTag :: "element \<Rightarrow> string" where
  "startTag e = el_tag e @ concat (map serializeAttr (el_attributes e))"

text \<open>
  The validity of one candidate in the words of the specification: the element
  resolves, neither fingerprint is empty, and the two agree after normalisation.
\<close>

definition spec_candidateValid ::
  "(string \<Rightarrow> bool) \<Rightarrow> (string \<Rightarrow> string + element) \<Rightarrow> string \<Rightarrow> string \<Rightarrow> bool" where
  "spec_candidateValid att live saved xpath \<longleftrightarrow>
     att xpath \<and>
     (case live xpath of
        Inl m \<Rightarrow> False
      | Inr el \<Rightarrow> getComponentString el \<noteq> [] \<and> saved \<noteq> [] \<and>
                 normalize_ws (getComponentString el) = normalize_ws saved)"

text \<open>The validator in the words of the specification: the first valid candidate, last stored first.\<close>

definition spec_validator ::
  "(string \<Rightarrow> bool) \<Rightarrow> (string \<Rightarrow> string + element) \<Rightarrow> string list \<Rightarrow> string \<Rightarrow> string option" where
  "spec_validator att live xpaths saved = find (spec_candidateValid att live saved) (rev xpaths)"

text \<open>The page answers the same whenever it is asked.\<close>

definition stablePage :: "env \<Rightarrow> (string \<Rightarrow> bool) \<Rightarrow> (string \<Rightarrow> string + element) \<Rightarrow> bool" where
  "stablePage E att live \<longleftrightarrow>
     (\<forall>x t h. attached E x t h = att x) \<and> (\<forall>x h. liveElement E x h = live x)"

definition is_act_ev :: "event \<Rightarrow> bool" where
  "is_act_ev ev = (case ev of EvAct inp \<Rightarrow> True | _ \<Rightarrow> False)"

definition is_perform_ev :: "event \<Rightarrow> bool" where
  "is_perform_ev ev = (case ev of EvPerform m args x \<Rightarrow> True | _ \<Rightarrow> False)"

definition is_lookup_ev :: "event \<Rightarrow> bool" where
  "is_lookup_ev ev = (case ev of EvGetActionStep c \<Rightarrow> True | _ \<Rightarrow> False)"

definition since :: "world \<Rightarrow> world \<Rightarrow> event list" where
  "since w w' = drop (length (trace w)) (trace w')"

definition silent :: "(event \<Rightarrow> bool) \<Rightarrow> 'a io \<Rightarrow> bool" where
  "silent c m \<longleftrightarrow> (\<forall>w. \<exists>evs. trace (snd (m w)) = trace w @ evs \<and> filter c evs = [])"

text \<open>Events that come from the page only.\<close>

definition page_only :: "(event \<Rightarrow> bool) \<Rightarrow> bool" where
  "page_only c \<longleftrightarrow> (\<forall>nm args. \<not> c (EvPage nm args)) \<and> (\<forall>t. \<not> c (EvWaitForSettledDom t)) \<and>
     (\<forall>x t. \<not> c (EvWaitFor x t)) \<and> (\<forall>x. \<not> c (EvEvaluate x)) \<and> (\<forall>s. \<not> c (EvProcessDom s)) \<and>
     \<not> c EvProcessAllOfDom \<and> (\<forall>k. \<not> c (EvGetScreenshot k)) \<and>
     (\<forall>i. \<not> c (EvVerifyActCompletion i)) \<and> (\<forall>s. \<not> c (EvAddRecorderStep s)) \<and>
     (\<forall>a r. \<not> c (EvRecordAction a r))"

definition oracle_or_lookup :: "(event \<Rightarrow> bool) \<Rightarrow> bool" where
  "oracle_or_lookup c \<longleftrightarrow> (\<forall>ev. c ev \<longrightarrow> is_act_ev ev \<or> is_lookup_ev ev)"

definition emits_first :: "(event \<Rightarrow> bool) \<Rightarrow> event \<Rightarrow> 'a io \<Rightarrow> bool" where
  "emits_first c ev m \<longleftrightarrow>
     (\<forall>w. \<exists>evs. trace (snd (m w)) = trace w @ ev # evs \<and> filter c evs = [])"

definition cacheObjOf :: "env \<Rightarrow> actArgs \<Rightarrow> world \<Rightarrow> cacheObj" where
  "cacheObjOf E a w =
     \<lparr>co_url = pageUrl E (trace w), co_action = action a,
      co_previousSelectors = previousSelectors a, co_requestId = requestId a\<rparr>"

definition is_scroll_ev :: "event \<Rightarrow> bool" where
  "is_scroll_ev ev \<longleftrightarrow> ev = EvPage ''scrollToHeight'' [''0'']"

definition scan_ev :: "event \<Rightarrow> bool" where
  "scan_ev ev \<longleftrightarrow> is_act_ev ev \<or> is_scroll_ev ev"

definition freshMode :: "handler \<Rightarrow> actArgs \<Rightarrow> bool" where
  "freshMode H a \<longleftrightarrow> \<not> enableCaching H \<or> skipActionCacheForThisStep a"



text \<open>
  The last two calls of the trace ask the request cache and the action cache to drop
  the entries of the request.
\<close>

definition purgeRequested :: "string \<Rightarrow> world \<Rightarrow> bool" where
  "purgeRequested rid w \<longleftrightarrow>
     take 2 (rev (trace w)) = [EvDeleteCacheForRequestId rid, EvCleanRequestCache rid]"

text \<open>
  The part of fresh inference that shows one chunk to the decision oracle: from
  \<^verbatim>\<open>processDom\<close> to \<^verbatim>\<open>cleanupDomDebug\<close>, with the chunk and the decision as its value.
\<close>

definition consultOracle :: "handler \<Rightarrow> env \<Rightarrow> actArgs \<Rightarrow> (domResult \<times> actResponse option) io" where
  "consultOracle H E a =
     andThen (processDom_op E (chunksSeen a)) (\<lambda>pd.
     andThen
       (if useVision a = VisionOn then
          (if \<not> hasVision (llmClient a) then ret None
           else andThen (getScreenshot_op E ''annotated'') (\<lambda>shot. ret (Some shot)))
        else ret None) (\<lambda>annotatedScreenshot.
     andThen (act_op E
                \<lparr>ai_action = action a, ai_domElements = outputString pd,
                 ai_steps = steps a, ai_llmClient = llmClient a,
                 ai_screenshot = annotatedScreenshot, ai_requestId = requestId a,
                 ai_variables = variables a,
                 ai_userProvidedInstructions = userProvidedInstructions H\<rparr>) (\<lambda>response.
     andThen (page_op E ''cleanupDomDebug'' []) (\<lambda>_. ret (pd, response)))))"

definition purgeEvents :: "handler \<Rightarrow> string \<Rightarrow> event list" where
  "purgeEvents H rid =
     (if enableCaching H then [EvCleanRequestCache rid, EvDeleteCacheForRequestId rid] else [])"

definition initEvents :: "actArgs \<Rightarrow> event list" where
  "initEvents a = [EvWaitForSettledDom (domSettleTimeoutMs a), EvPage ''startDomDebug'' []]"

definition demoFill :: "string \<Rightarrow> (string \<times> string) list \<Rightarrow> string" where
  "demoFill s vars = (case map_of vars s of None \<Rightarrow> s | Some v \<Rightarrow> v)"

definition demoButton :: element where
  "demoButton = \<lparr>el_tag = ''button'', el_attributes = [(''type'', ''submit''), (''class'', ''btn'')],
                 el_innerHTML = ''Submit''\<rparr>"

definition demoSelectorMap :: "nat \<Rightarrow> string list option" where
  "demoSelectorMap n = (if n = 3 then Some [''/html/body/form/button'', ''//button[1]''] else None)"

definition demoDom :: domResult where
  "demoDom = \<lparr>outputString = ''3:Submit'', selectorMap = demoSelectorMap, chunk = 0, chunks = [0]\<rparr>"

definition demoResponse :: actResponse where
  "demoResponse = \<lparr>r_element = 3, r_method = ''click'', r_args = [],
                   r_step = ''Click Submit'', r_why = ''It sends the form'', r_completed = True\<rparr>"

definition demoEnv :: env where
  "demoEnv = \<lparr>fillInVariables = demoFill,
              pageFails = (\<lambda>nm args h. None),
              settleFails = (\<lambda>t h. None),
              pageUrl = (\<lambda>h. ''https://shop.example/''),
              attached = (\<lambda>x t h. True),
              liveElement = (\<lambda>x h. Inr demoButton),
              locatorHasMethod = (\<lambda>m. m = ''click''),
              newOpenedTab = (\<lambda>h. None),
              processDom = (\<lambda>seen h. Inr demoDom),
              processAllOfDom = (\<lambda>h. Inr (''3:Submit'', demoSelectorMap)),
              getScreenshot = (\<lambda>k h. Inr ''PNG''),
              actOracle = (\<lambda>inp h. Inr (Some demoResponse)),
              verifyOracle = (\<lambda>inp h. Inr True)\<rparr>"

definition demoHandler :: handler where
  "demoHandler = \<lparr>enableCaching = True, enableRecording = False, userProvidedInstructions = None\<rparr>"

definition demoArgs :: actArgs where
  "demoArgs = \<lparr>action = ''submit the form'', steps = [], chunksSeen = [],
               llmClient = \<lparr>modelName = ''gpt-4o'', hasVision = True\<rparr>,
               useVision = VisionFallback, verifierUseVision = False, retries = 0,
               requestId = ''req-1'', variables = [], previousSelectors = [],
               skipActionCacheForThisStep = True, domSettleTimeoutMs = None\<rparr>"

definition emptyWorld :: world where
  "emptyWorld = \<lparr>actionCache = (\<lambda>k. None), trace = []\<rparr>"

definition nullEnv :: env where
  "nullEnv = demoEnv\<lparr>actOracle := (\<lambda>inp h. Inr None),
                     processDom := (\<lambda>seen h. Inr \<lparr>outputString = [], selectorMap = (\<lambda>n. None),
                                                    chunk = length seen, chunks = [0, 1]\<rparr>)\<rparr>"




definition resultOf :: "exn + outcome \<Rightarrow> actResult option" where
  "resultOf r = (case r of Inr (Return res) \<Rightarrow> Some res | _ \<Rightarrow> None)"

definition recursionOf :: "exn + outcome \<Rightarrow> actArgs option" where
  "recursionOf r = (case r of Inr (Recurse a) \<Rightarrow> Some a | _ \<Rightarrow> None)"

definition is_verify_ev :: "event \<Rightarrow> bool" where
  "is_verify_ev ev = (case ev of EvVerifyActCompletion inp \<Rightarrow> True | _ \<Rightarrow> False)"




definition demoAttached :: "string \<Rightarrow> bool" where
  "demoAttached x \<longleftrightarrow> x \<noteq> ''//gone''"

definition demoLive :: "string \<Rightarrow> string + element" where
  "demoLive x =
     (if x = ''//button[1]'' then Inr demoButton
      else Inr \<lparr>el_tag = ''a'', el_attributes = [(''href'', ''/help'')], el_innerHTML = ''Help''\<rparr>)"

definition pageEnv :: env where
  "pageEnv = demoEnv\<lparr>attached := (\<lambda>x t h. demoAttached x), liveElement := (\<lambda>x h. demoLive x)\<rparr>"

definition demoSaved :: string where
  "demoSaved = ''  <button   type='' @ [CHR 0x22] @ ''submit'' @ [CHR 0x22] @ ''>Submit</button> ''"

definition demoStep :: cachedActionStep where
  "demoStep =
     \<lparr>cs_action = ''submit the form'', cs_url = ''https://shop.example/'',
      cs_previousSelectors = [],
      cs_playwrightCommand = \<lparr>pc_method = ''fill'', pc_args = [''<|USER|>'']\<rparr>,
      cs_componentString = demoSaved, cs_requestId = ''req-0'',
      cs_xpaths = [''//button[1]'', ''//a'', ''//gone''],
      cs_newStepString = ''## Step: type the user name'', cs_completed = True\<rparr>"

definition cachedWorld :: world where
  "cachedWorld =
     \<lparr>actionCache = (\<lambda>k. if k = (''https://shop.example/'', ''submit the form'', [])
                          then Some demoStep else None),
      trace = []\<rparr>"

definition cachedArgs :: actArgs where
  "cachedArgs = demoArgs\<lparr>skipActionCacheForThisStep := False,
                          variables := [(''<|USER|>'', ''alice'')]\<rparr>"

text \<open>The world when the cache is consulted: after the two waits that open a call.\<close>

definition afterInit :: "actArgs \<Rightarrow> world \<Rightarrow> world" where
  "afterInit a w = w\<lparr>trace := trace w @ initEvents a\<rparr>"

definition initSucceeds :: "env \<Rightarrow> actArgs \<Rightarrow> world \<Rightarrow> bool" where
  "initSucceeds E a w \<longleftrightarrow>
     settleFails E (domSettleTimeoutMs a) (trace w) = None \<and>
     pageFails E ''startDomDebug'' [] (trace w @ [EvWaitForSettledDom (domSettleTimeoutMs a)]) = None"

definition is_remove_ev :: "event \<Rightarrow> bool" where
  "is_remove_ev ev = (case ev of EvRemoveActionStep c \<Rightarrow> True | _ \<Rightarrow> False)"



text \<open>
  The part of the inner block that comes before the verification: from the resolution
  of the selector to the note on a changed URL, with the grown narrative and the
  selector that was used as its value.
\<close>

definition act_execute ::
  "handler \<Rightarrow> env \<Rightarrow> actArgs \<Rightarrow> domResult \<Rightarrow> actResponse \<Rightarrow> (string \<times> string) io" where
  "act_execute H E a pd response =
     andThen (getUrl E) (\<lambda>initialUrl.
     case selectorMap pd (r_element response) of
       None \<Rightarrow> raise (Error ''xpaths is not iterable'')
     | Some xpaths \<Rightarrow>
         andThen (findXpath E xpaths) (\<lambda>found.
         case found of
           None \<Rightarrow> raise (Error ''None of the provided XPaths could be located.'')
         | Some foundXpath \<Rightarrow>
             if foundXpath = [] then
               raise (Error ''None of the provided XPaths could be located.'')
             else
               andThen (getUrl E) (\<lambda>originalUrl.
               andThen (getComponentString_op E foundXpath) (\<lambda>componentString.
               andThen (performPlaywrightMethod E (r_method response)
                          (substituteArgs E (variables a) (r_args response))
                          foundXpath (domSettleTimeoutMs a)) (\<lambda>_.
               let newStepString =
                     newStepStringOf (steps a) response
                       (elementTextOf (outputString pd) (r_element response));
                   cacheRecord =
                     \<lparr>cs_action = action a, cs_url = originalUrl,
                      cs_previousSelectors = previousSelectors a,
                      cs_playwrightCommand =
                        \<lparr>pc_method = r_method response,
                         pc_args = map toStringOrEmpty (r_args response)\<rparr>,
                      cs_componentString = componentString,
                      cs_requestId = requestId a, cs_xpaths = xpaths,
                      cs_newStepString = newStepString,
                      cs_completed = r_completed response\<rparr> in
               andThen (if enableCaching H then addActionStep cacheRecord else ret ()) (\<lambda>_.
               andThen (recordActionIfEnabled H cacheRecord) (\<lambda>_.
               andThen (getUrl E) (\<lambda>urlNow.
               ret (steps a @ newStepString @ urlChangeNote initialUrl urlNow, foundXpath)))))))))"

text \<open>What the inner block does with the verdict of the verification.\<close>

definition act_conclude :: "actArgs \<Rightarrow> actResponse \<Rightarrow> string \<times> string \<Rightarrow> bool \<Rightarrow> outcome io" where
  "act_conclude a response p actionCompleted =
     (if \<not> actionCompleted then
        ret (Recurse (a\<lparr>steps := fst p,
                        previousSelectors := previousSelectors a @ [snd p],
                        skipActionCacheForThisStep := False,
                        retries := 0\<rparr>))
      else
        andThen (recordAction (action a) (r_step response)) (\<lambda>_.
        ret (Return \<lparr>success = True,
                     message = ''Action completed successfully: '' @ fst p @ r_step response,
                     res_action = action a\<rparr>)))"

definition verifyDownPage :: env where
  "verifyDownPage = pageEnv\<lparr>verifyOracle := (\<lambda>inp h. Inl ''verifier unavailable'')\<rparr>"

definition denyEnv :: env where
  "denyEnv = pageEnv\<lparr>verifyOracle := (\<lambda>inp h. Inr False)\<rparr>"

definition fillDownEnv :: env where
  "fillDownEnv = pageEnv\<lparr>pageFails := (\<lambda>nm args h.
     if nm = ''locator.fill'' then Some ''element is detached'' else None)\<rparr>"

text \<open>A stored step whose first selector is gone from the page, the second one valid.\<close>

definition movedStep :: cachedActionStep where
  "movedStep = demoStep\<lparr>cs_xpaths := [''//gone'', ''//button[1]'']\<rparr>"

definition movedWorld :: world where
  "movedWorld =
     \<lparr>actionCache = (\<lambda>k. if k = (''https://shop.example/'', ''submit the form'', [])
                          then Some movedStep else None),
      trace = []\<rparr>"

text \<open>
  The part of the replay that comes before the verification: the stored command, the
  entry for the recorder, and the chunk tracker.
\<close>

definition replay_execute ::
  "handler \<Rightarrow> env \<Rightarrow> actArgs \<Rightarrow> cachedActionStep \<Rightarrow> string \<Rightarrow> unit io" where
  "replay_execute H E a cachedStep validXpath =
     (let cmd = \<lparr>pc_method = pc_method (cs_playwrightCommand cachedStep),
                 pc_args = map (\<lambda>arg. fillInVariables E arg (variables a))
                             (pc_args (cs_playwrightCommand cachedStep))\<rparr> in
      andThen (performPlaywrightMethod E (pc_method cmd) (map JString (pc_args cmd)) validXpath
                 (domSettleTimeoutMs a)) (\<lambda>_.
      andThen (getUrl E) (\<lambda>url.
      andThen (recordActionIfEnabled H
                 \<lparr>cs_action = action a, cs_url = url, cs_previousSelectors = [],
                  cs_playwrightCommand = cmd,
                  cs_componentString = cs_componentString cachedStep,
                  cs_requestId = requestId a, cs_xpaths = [validXpath],
                  cs_newStepString = cs_newStepString cachedStep,
                  cs_completed = cs_completed cachedStep\<rparr>) (\<lambda>_.
      andThen (processDom_op E (chunksSeen a)) (\<lambda>_. ret ())))))"

definition is_add_ev :: "event \<Rightarrow> bool" where
  "is_add_ev ev = (case ev of EvAddActionStep s \<Rightarrow> True | _ \<Rightarrow> False)"

definition refuseEnv :: env where
  "refuseEnv = demoEnv\<lparr>verifyOracle := (\<lambda>inp h. Inr False)\<rparr>"

text \<open>The call after one failed attempt at the step.\<close>

definition retriedArgs :: actArgs where
  "retriedArgs = demoArgs\<lparr>retries := 1\<rparr>"

text \<open>The argument lists of the steps that a run wrote to the cache, in order.\<close>

definition storedArgs :: "event list \<Rightarrow> string list list" where
  "storedArgs evs =
     concat (map (\<lambda>ev. case ev of EvAddActionStep s \<Rightarrow> [pc_args (cs_playwrightCommand s)]
                        | _ \<Rightarrow> []) evs)"

text \<open>A decision that types a placeholder into the field.\<close>

definition fillResponse :: actResponse where
  "fillResponse = demoResponse\<lparr>r_method := ''fill'', r_args := [JString ''<|USER|>''],
                                r_step := ''Type the user name''\<rparr>"

definition fillEnv :: env where
  "fillEnv = demoEnv\<lparr>actOracle := (\<lambda>inp h. Inr (Some fillResponse))\<rparr>"

text \<open>A call that goes to fresh inference with a value for the placeholder.\<close>

definition aliceArgs :: actArgs where
  "aliceArgs = demoArgs\<lparr>variables := [(''<|USER|>'', ''alice'')]\<rparr>"

text \<open>A write to the cache of a command other than the given one.\<close>

definition storesOther :: "playwrightCommand \<Rightarrow> event \<Rightarrow> bool" where
  "storesOther cmd ev = (case ev of EvAddActionStep s \<Rightarrow> cs_playwrightCommand s \<noteq> cmd | _ \<Rightarrow> False)"

text \<open>A run of a command other than the given method on the given arguments.\<close>

definition performsOther :: "string \<Rightarrow> jsarg list \<Rightarrow> event \<Rightarrow> bool" where
  "performsOther m args ev = (case ev of EvPerform m' args' x \<Rightarrow> m' \<noteq> m \<or> args' \<noteq> args | _ \<Rightarrow> False)"




section \<open>Properties of the normalisation and the fingerprint\<close>

lemma collapse_ws_append_nonws:
  "\<not> is_ws c \<Longrightarrow> collapse_ws (xs @ c # ys) = collapse_ws xs @ c # collapse_ws ys"
proof (induction xs rule: collapse_ws.induct)
  case 1
  then show ?case by simp
next
  case (2 x xs)
  show ?case
  proof (cases "is_ws x")
    case True
    have "dropWhile is_ws (xs @ c # ys) = dropWhile is_ws xs @ c # ys"
      using "2.prems" by (simp add: dropWhile_append3)
    with True 2 show ?thesis by simp
  next
    case False
    with 2 show ?thesis by simp
  qed
qed

lemma js_trim_id:
  "\<not> is_ws a \<Longrightarrow> \<not> is_ws b \<Longrightarrow> js_trim (a # xs @ [b]) = a # xs @ [b]"
  by (simp add: js_trim_def)

lemma ws_variant_collapse:
  "ws_variant s t \<Longrightarrow> collapse_ws s = collapse_ws t"
  by (induction s t rule: ws_variant.induct) (auto split: if_splits)

lemma dropWhile_collapse:
  "xs = [] \<or> \<not> is_ws (hd xs) \<Longrightarrow> dropWhile is_ws (collapse_ws xs) = collapse_ws xs"
  by (cases xs) auto

lemma collapse_ws_idem: "collapse_ws (collapse_ws s) = collapse_ws s"
proof (induction s rule: collapse_ws.induct)
  case 1 show ?case by simp
next
  case (2 c cs)
  have "dropWhile is_ws cs = [] \<or> \<not> is_ws (hd (dropWhile is_ws cs))"
    using hd_dropWhile by blast
  then show ?case using 2 by (simp add: dropWhile_collapse is_ws_def)
qed

lemma not_ws_lt [simp]: "\<not> is_ws (CHR ''<'')" by (simp add: is_ws_def)
lemma not_ws_gt [simp]: "\<not> is_ws (CHR ''>'')" by (simp add: is_ws_def)
lemma not_ws_quote [simp]: "\<not> is_ws (CHR 0x22)" by (simp add: is_ws_def)

text \<open>The serialisation of an element starts with \<open><\<close> and ends with \<open>>\<close>, so trimming keeps it.\<close>

lemma outerHTML_shape:
  "outerHTML e = CHR ''<'' # startTag e @ CHR ''>'' #
     (if el_tag e \<in> set voidElements then []
      else el_innerHTML e @ CHR ''<'' # (''/'' @ el_tag e @ ''>''))"
  by (simp add: outerHTML_def startTag_def)

lemma outerHTML_ends: "\<exists>X. outerHTML e = CHR ''<'' # X @ [CHR ''>'']"
proof (cases "el_tag e \<in> set voidElements")
  case True
  then have "outerHTML e = CHR ''<'' # startTag e @ [CHR ''>'']" by (simp add: outerHTML_shape)
  then show ?thesis by blast
next
  case False
  then have "outerHTML e =
      CHR ''<'' # (startTag e @ ''>'' @ el_innerHTML e @ ''</'' @ el_tag e) @ [CHR ''>'']"
    by (simp add: outerHTML_shape)
  then show ?thesis by blast
qed

lemma js_trim_outerHTML: "js_trim (outerHTML e) = outerHTML e"
proof -
  obtain X where "outerHTML e = CHR ''<'' # X @ [CHR ''>'']" using outerHTML_ends by blast
  then show ?thesis by (simp add: js_trim_id)
qed

lemma getComponentString_eq: "getComponentString e = collapse_ws (outerHTML (removeAttributes e))"
  by (simp add: getComponentString_def js_trim_outerHTML)

lemma getComponentString_trim: "js_trim (getComponentString e) = getComponentString e"
proof -
  obtain X where X: "outerHTML (removeAttributes e) = CHR ''<'' # X @ [CHR ''>'']"
    using outerHTML_ends by blast
  have "getComponentString e = CHR ''<'' # collapse_ws X @ [CHR ''>'']"
    by (simp add: getComponentString_eq X collapse_ws_append_nonws)
  then show ?thesis by (simp add: js_trim_id)
qed

lemma getComponentString_normal: "normalize_ws (getComponentString e) = getComponentString e"
  unfolding normalize_ws_def getComponentString_trim
  by (simp add: getComponentString_eq collapse_ws_idem)

lemma getComponentString_nonempty: "getComponentString e \<noteq> []"
  by (simp add: getComponentString_eq outerHTML_shape)

lemma getComponentString_inner:
  assumes "el_tag e1 = el_tag e2" "el_attributes e1 = el_attributes e2"
    and "ws_variant (el_innerHTML e1) (el_innerHTML e2)"
  shows "getComponentString e1 = getComponentString e2"
proof (cases "el_tag e2 \<in> set voidElements")
  case True
  with assms show ?thesis
    by (simp add: getComponentString_eq outerHTML_shape removeAttributes_def startTag_def)
next
  case False
  define P where "P = CHR ''<'' # startTag (removeAttributes e2)"
  define Q where "Q = ''/'' @ el_tag e2 @ ''>''"
  have shape: "outerHTML (removeAttributes e) = P @ CHR ''>'' # el_innerHTML e @ CHR ''<'' # Q"
    if "el_tag e = el_tag e2" "el_attributes e = el_attributes e2" for e
    using that False
    by (simp add: outerHTML_shape removeAttributes_def startTag_def P_def Q_def)
  have "getComponentString e =
      collapse_ws P @ CHR ''>'' # collapse_ws (el_innerHTML e) @ CHR ''<'' # collapse_ws Q"
    if "el_tag e = el_tag e2" "el_attributes e = el_attributes e2" for e
    unfolding getComponentString_eq shape[OF that]
    by (simp add: collapse_ws_append_nonws)
  from this[of e1] this[of e2] assms ws_variant_collapse[OF assms(3)]
  show ?thesis by simp
qed

lemma getComponentString_dropped:
  assumes "n \<notin> set attributesToKeep"
  shows "getComponentString (e\<lparr>el_attributes := as1 @ (n, v) # as2\<rparr>) =
         getComponentString (e\<lparr>el_attributes := as1 @ as2\<rparr>)"
  using assms by (simp add: getComponentString_def removeAttributes_def)

lemma serializeAttr_shape:
  "serializeAttr (n, v) = ('' '' @ n @ ''='') @ CHR 0x22 # escapeAttr v @ [CHR 0x22]"
  by (simp add: serializeAttr_def)

lemma getComponentString_kept:
  assumes "n \<in> set attributesToKeep"
  shows "getComponentString (e\<lparr>el_attributes := as1 @ (n, v) # as2\<rparr>) =
         getComponentString (e\<lparr>el_attributes := as1 @ (n, v') # as2\<rparr>)
         \<longleftrightarrow> collapse_ws (escapeAttr v) = collapse_ws (escapeAttr v')"
proof -
  define keep :: "(string \<times> string) list \<Rightarrow> (string \<times> string) list"
    where "keep = filter (\<lambda>a. fst a \<in> set attributesToKeep)"
  define P where
    "P = CHR ''<'' # el_tag e @ concat (map serializeAttr (keep as1)) @ '' '' @ n @ ''=''"
  define Q where
    "Q = concat (map serializeAttr (keep as2)) @ CHR ''>'' #
       (if el_tag e \<in> set voidElements then []
        else el_innerHTML e @ CHR ''<'' # (''/'' @ el_tag e @ ''>''))"
  have shape: "outerHTML (removeAttributes (e\<lparr>el_attributes := as1 @ (n, u) # as2\<rparr>)) =
      P @ CHR 0x22 # escapeAttr u @ CHR 0x22 # Q" for u
    using assms
    by (simp add: outerHTML_shape removeAttributes_def startTag_def P_def Q_def keep_def
          serializeAttr_shape)
  have "getComponentString (e\<lparr>el_attributes := as1 @ (n, u) # as2\<rparr>) =
      collapse_ws P @ CHR 0x22 # collapse_ws (escapeAttr u) @ CHR 0x22 # collapse_ws Q" for u
    unfolding getComponentString_eq shape
    by (simp add: collapse_ws_append_nonws)
  then show ?thesis by simp
qed

text \<open>
  C3 (as amended). The fingerprint is a function of the element, and it is normalised:
  trimming it and collapsing its white space again gives the same string. Two elements
  with the same tag and attributes whose children's markup differs only in the length
  or kind of white space runs have the same fingerprint. Two elements that differ only
  in an attribute outside the allow-list (its value, or whether it is there) have the
  same fingerprint. Two elements that differ only in the value of an attribute of the
  allow-list have different fingerprints exactly when the two serialised values still
  differ after their white space runs are collapsed.
\<close>

theorem getComponentString_normalizing:
  "normalize_ws (getComponentString e) = getComponentString e \<and>
   (el_tag e1 = el_tag e2 \<and> el_attributes e1 = el_attributes e2 \<and>
    ws_variant (el_innerHTML e1) (el_innerHTML e2) \<longrightarrow>
      getComponentString e1 = getComponentString e2) \<and>
   (n \<notin> set attributesToKeep \<longrightarrow>
      getComponentString (e\<lparr>el_attributes := as1 @ (n, v) # as2\<rparr>) =
      getComponentString (e\<lparr>el_attributes := as1 @ (n, v') # as2\<rparr>) \<and>
      getComponentString (e\<lparr>el_attributes := as1 @ (n, v) # as2\<rparr>) =
      getComponentString (e\<lparr>el_attributes := as1 @ as2\<rparr>)) \<and>
   (k \<in> set attributesToKeep \<longrightarrow>
      (getComponentString (e\<lparr>el_attributes := as1 @ (k, v) # as2\<rparr>) \<noteq>
       getComponentString (e\<lparr>el_attributes := as1 @ (k, v') # as2\<rparr>)
       \<longleftrightarrow> collapse_ws (escapeAttr v) \<noteq> collapse_ws (escapeAttr v')))"
proof (intro conjI impI)
  show "normalize_ws (getComponentString e) = getComponentString e"
    by (rule getComponentString_normal)
next
  assume "el_tag e1 = el_tag e2 \<and> el_attributes e1 = el_attributes e2 \<and>
    ws_variant (el_innerHTML e1) (el_innerHTML e2)"
  then show "getComponentString e1 = getComponentString e2"
    by (simp add: getComponentString_inner)
next
  assume n: "n \<notin> set attributesToKeep"
  show "getComponentString (e\<lparr>el_attributes := as1 @ (n, v) # as2\<rparr>) =
      getComponentString (e\<lparr>el_attributes := as1 @ (n, v') # as2\<rparr>)"
    by (simp add: getComponentString_dropped[OF n])
  show "getComponentString (e\<lparr>el_attributes := as1 @ (n, v) # as2\<rparr>) =
      getComponentString (e\<lparr>el_attributes := as1 @ as2\<rparr>)"
    by (rule getComponentString_dropped[OF n])
next
  assume k: "k \<in> set attributesToKeep"
  show "getComponentString (e\<lparr>el_attributes := as1 @ (k, v) # as2\<rparr>) \<noteq>
       getComponentString (e\<lparr>el_attributes := as1 @ (k, v') # as2\<rparr>)
       \<longleftrightarrow> collapse_ws (escapeAttr v) \<noteq> collapse_ws (escapeAttr v')"
    by (simp add: getComponentString_kept[OF k])
qed

theorem getComponentString_normalizing_witness:
  "ws_variant (''Log   in'' @ [CHR 0x0A]) ''Log in '' \<and>
   getComponentString \<lparr>el_tag = ''button'', el_attributes = [(''type'', ''submit'')],
                        el_innerHTML = ''Log   in'' @ [CHR 0x0A]\<rparr> =
   getComponentString \<lparr>el_tag = ''button'', el_attributes = [(''type'', ''submit'')],
                        el_innerHTML = ''Log in ''\<rparr> \<and>
   ''class'' \<notin> set attributesToKeep \<and>
   getComponentString \<lparr>el_tag = ''a'', el_attributes = [(''class'', ''big''), (''href'', ''/x'')],
                        el_innerHTML = ''Home''\<rparr> =
   getComponentString \<lparr>el_tag = ''a'', el_attributes = [(''class'', ''small''), (''href'', ''/x'')],
                        el_innerHTML = ''Home''\<rparr> \<and>
   ''href'' \<in> set attributesToKeep \<and>
   getComponentString \<lparr>el_tag = ''a'', el_attributes = [(''href'', ''/x'')],
                        el_innerHTML = ''Home''\<rparr> \<noteq>
   getComponentString \<lparr>el_tag = ''a'', el_attributes = [(''href'', ''/y'')],
                        el_innerHTML = ''Home''\<rparr> \<and>
   normalize_ws (getComponentString \<lparr>el_tag = ''a'', el_attributes = [(''href'', ''/x'')],
                        el_innerHTML = ''Home''\<rparr>) =
   getComponentString \<lparr>el_tag = ''a'', el_attributes = [(''href'', ''/x'')],
                        el_innerHTML = ''Home''\<rparr>"
  using getComponentString_normalizing
    [of "\<lparr>el_tag = ''a'', el_attributes = [(''href'', ''/x'')], el_innerHTML = ''Home''\<rparr>"
        "\<lparr>el_tag = ''button'', el_attributes = [(''type'', ''submit'')],
          el_innerHTML = ''Log   in'' @ [CHR 0x0A]\<rparr>"
        "\<lparr>el_tag = ''button'', el_attributes = [(''type'', ''submit'')],
          el_innerHTML = ''Log in ''\<rparr>"
        "''class''" "[]" "''big''" "[(''href'', ''/x'')]" "''small''" "''href''"]
    getComponentString_normalizing
    [of "\<lparr>el_tag = ''a'', el_attributes = [], el_innerHTML = ''Home''\<rparr>"
        "\<lparr>el_tag = ''button'', el_attributes = [(''type'', ''submit'')],
          el_innerHTML = ''Log   in'' @ [CHR 0x0A]\<rparr>"
        "\<lparr>el_tag = ''button'', el_attributes = [(''type'', ''submit'')],
          el_innerHTML = ''Log in ''\<rparr>"
        "''class''" "[]" "''/x''" "[]" "''/y''" "''href''"]
  by (simp add: getComponentString_def removeAttributes_def attributesToKeep_def outerHTML_def
        voidElements_def serializeAttr_def js_trim_def is_ws_def)

text \<open>
  C3 as stated fails in its last part: two values of an attribute of the allow-list
  that differ only in white space give the same fingerprint.
\<close>

theorem getComponentString_allowlisted_counterexample:
  "''First  name'' \<noteq> ''First name'' \<and>
   getComponentString \<lparr>el_tag = ''input'', el_attributes = [(''placeholder'', ''First  name'')],
                        el_innerHTML = []\<rparr> =
   getComponentString \<lparr>el_tag = ''input'', el_attributes = [(''placeholder'', ''First name'')],
                        el_innerHTML = []\<rparr>"
  by (simp add: getComponentString_def removeAttributes_def attributesToKeep_def outerHTML_def
        voidElements_def serializeAttr_def js_trim_def is_ws_def)

lemma check_stable:
  assumes "stablePage E att live"
  shows "fst (checkIfCachedStepIsValid_oneXpath E x saved w) = Inr (spec_candidateValid att live saved x)"
  using assms
  by (auto simp: stablePage_def checkIfCachedStepIsValid_oneXpath_def spec_candidateValid_def
        tryCatch_def andThen_def ret_def waitForAttached_def getComponentString_op_def
        split: sum.splits prod.splits)

lemma firstValid_stable:
  assumes "stablePage E att live"
  shows "fst (firstValidXpath E xs saved w) = Inr (find (spec_candidateValid att live saved) xs)"
proof (induction xs arbitrary: w)
  case Nil
  show ?case by (simp add: ret_def)
next
  case (Cons x xs)
  obtain r w1 where c: "checkIfCachedStepIsValid_oneXpath E x saved w = (r, w1)"
    by (cases "checkIfCachedStepIsValid_oneXpath E x saved w")
  with check_stable[OF assms, of x saved w]
  have r: "r = Inr (spec_candidateValid att live saved x)" by simp
  show ?case using Cons.IH[of w1] c r
    by (simp add: andThen_def ret_def)
qed

lemma find_Some_split:
  "find P xs = Some x \<Longrightarrow> \<exists>pre post. xs = pre @ x # post \<and> P x \<and> (\<forall>y\<in>set pre. \<not> P y)"
proof (induction xs)
  case Nil
  then show ?case by simp
next
  case (Cons z zs)
  show ?case
  proof (cases "P z")
    case True
    with Cons.prems have "z = x" by simp
    with True show ?thesis by (intro exI[of _ "[]"] exI[of _ zs]) simp
  next
    case False
    with Cons obtain pre post where "zs = pre @ x # post" "P x" "\<forall>y\<in>set pre. \<not> P y"
      by auto
    with False show ?thesis by (intro exI[of _ "z # pre"] exI[of _ post]) simp
  qed
qed

text \<open>
  C4. On a page that does not change while the step is validated, the validator
  returns what the specification says: the first selector, in the reverse of the
  stored order, whose element is attached and whose recomputed fingerprint equals the
  stored one after both are normalised, neither being empty; no selector when every
  candidate is invalid. It never raises.
\<close>

theorem getValidCachedStepXpath_reverse_first:
  assumes "stablePage E att live"
  shows "fst (getValidCachedStepXpath E xpaths saved w) =
           Inr (spec_validator att live xpaths saved) \<and>
         (spec_validator att live xpaths saved = None \<longleftrightarrow>
            (\<forall>x\<in>set xpaths. \<not> spec_candidateValid att live saved x)) \<and>
         (\<forall>x. spec_validator att live xpaths saved = Some x \<longrightarrow>
            (\<exists>pre post. rev xpaths = pre @ x # post \<and> spec_candidateValid att live saved x \<and>
               (\<forall>y\<in>set pre. \<not> spec_candidateValid att live saved y)))"
proof (intro conjI allI impI)
  show "fst (getValidCachedStepXpath E xpaths saved w) =
           Inr (spec_validator att live xpaths saved)"
    using firstValid_stable[OF assms]
    by (simp add: getValidCachedStepXpath_def spec_validator_def)
  show "spec_validator att live xpaths saved = None \<longleftrightarrow>
            (\<forall>x\<in>set xpaths. \<not> spec_candidateValid att live saved x)"
    by (auto simp: spec_validator_def find_None_iff)
  show "\<exists>pre post. rev xpaths = pre @ x # post \<and> spec_candidateValid att live saved x \<and>
               (\<forall>y\<in>set pre. \<not> spec_candidateValid att live saved y)"
    if "spec_validator att live xpaths saved = Some x" for x
    using that find_Some_split[of "spec_candidateValid att live saved" "rev xpaths" x]
    by (simp add: spec_validator_def)
qed

lemma silentD:
  "silent c m \<Longrightarrow> m w = (r, w') \<Longrightarrow> \<exists>evs. trace w' = trace w @ evs \<and> filter c evs = []"
  unfolding silent_def by (metis snd_conv)

lemma silent_ret: "silent c (ret x)"
  by (simp add: silent_def ret_def)

lemma silent_raise: "silent c (raise e)"
  by (simp add: silent_def raise_def)

lemma silent_andThen:
  assumes "silent c m" "\<And>x. silent c (f x)"
  shows "silent c (andThen m f)"
  unfolding silent_def
proof
  fix w
  obtain r w1 where m: "m w = (r, w1)" by (cases "m w")
  from silentD[OF assms(1) m] obtain e1 where e1: "trace w1 = trace w @ e1" "filter c e1 = []"
    by blast
  show "\<exists>evs. trace (snd (andThen m f w)) = trace w @ evs \<and> filter c evs = []"
  proof (cases r)
    case (Inl e)
    with m e1 show ?thesis by (simp add: andThen_def)
  next
    case (Inr x)
    obtain r2 w2 where f: "f x w1 = (r2, w2)" by (cases "f x w1")
    from silentD[OF assms(2) f] obtain e2 where "trace w2 = trace w1 @ e2" "filter c e2 = []"
      by blast
    with m e1 Inr f show ?thesis by (simp add: andThen_def)
  qed
qed

lemma silent_tryCatch:
  assumes "silent c m" "\<And>e. silent c (h e)"
  shows "silent c (tryCatch m h)"
  unfolding silent_def
proof
  fix w
  obtain r w1 where m: "m w = (r, w1)" by (cases "m w")
  from silentD[OF assms(1) m] obtain e1 where e1: "trace w1 = trace w @ e1" "filter c e1 = []"
    by blast
  show "\<exists>evs. trace (snd (tryCatch m h w)) = trace w @ evs \<and> filter c evs = []"
  proof (cases r)
    case (Inr x)
    with m e1 show ?thesis by (simp add: tryCatch_def)
  next
    case (Inl e)
    obtain r2 w2 where f: "h e w1 = (r2, w2)" by (cases "h e w1")
    from silentD[OF assms(2) f] obtain e2 where "trace w2 = trace w1 @ e2" "filter c e2 = []"
      by blast
    with m e1 Inl f show ?thesis by (simp add: tryCatch_def)
  qed
qed

lemma silent_emit1:
  assumes "\<And>w. \<exists>r. m w = (r, emit ev w)" "\<not> c ev"
  shows "silent c m"
  unfolding silent_def
proof
  fix w
  from assms(1)[of w] obtain r where "m w = (r, emit ev w)" by blast
  with assms(2) show "\<exists>evs. trace (snd (m w)) = trace w @ evs \<and> filter c evs = []"
    by (simp add: emit_def)
qed

lemma silent_page_op: "\<not> c (EvPage nm args) \<Longrightarrow> silent c (page_op E nm args)"
  by (rule silent_emit1[where ev = "EvPage nm args"]) (auto simp: page_op_def split: option.splits)

lemma silent_page_op_ignore: "\<not> c (EvPage nm args) \<Longrightarrow> silent c (page_op_ignore E nm args)"
  unfolding page_op_ignore_def by (intro silent_tryCatch silent_page_op silent_ret)

lemma silent_waitForSettledDom: "\<not> c (EvWaitForSettledDom t) \<Longrightarrow> silent c (waitForSettledDom E t)"
  by (rule silent_emit1[where ev = "EvWaitForSettledDom t"])
     (auto simp: waitForSettledDom_def split: option.splits)

lemma silent_waitForAttached: "\<not> c (EvWaitFor x t) \<Longrightarrow> silent c (waitForAttached E x t)"
  by (rule silent_emit1[where ev = "EvWaitFor x t"]) (auto simp: waitForAttached_def)

lemma silent_getComponentString_op: "\<not> c (EvEvaluate x) \<Longrightarrow> silent c (getComponentString_op E x)"
  by (rule silent_emit1[where ev = "EvEvaluate x"])
     (auto simp: getComponentString_op_def split: sum.splits)

lemma silent_processDom_op: "\<not> c (EvProcessDom seen) \<Longrightarrow> silent c (processDom_op E seen)"
  by (rule silent_emit1[where ev = "EvProcessDom seen"])
     (auto simp: processDom_op_def split: sum.splits)

lemma silent_processAllOfDom_op: "\<not> c EvProcessAllOfDom \<Longrightarrow> silent c (processAllOfDom_op E)"
  by (rule silent_emit1[where ev = "EvProcessAllOfDom"])
     (auto simp: processAllOfDom_op_def split: sum.splits)

lemma silent_getScreenshot_op: "\<not> c (EvGetScreenshot k) \<Longrightarrow> silent c (getScreenshot_op E k)"
  by (rule silent_emit1[where ev = "EvGetScreenshot k"])
     (auto simp: getScreenshot_op_def split: sum.splits)

lemma silent_act_op: "\<not> c (EvAct inp) \<Longrightarrow> silent c (act_op E inp)"
  by (rule silent_emit1[where ev = "EvAct inp"]) (auto simp: act_op_def split: sum.splits)

lemma silent_verifyActCompletion_op:
  "\<not> c (EvVerifyActCompletion inp) \<Longrightarrow> silent c (verifyActCompletion_op E inp)"
  by (rule silent_emit1[where ev = "EvVerifyActCompletion inp"])
     (auto simp: verifyActCompletion_op_def split: sum.splits)

lemma silent_getUrl: "silent c (getUrl E)"
  by (simp add: silent_def getUrl_def)

lemma silent_getActionStep: "\<not> c (EvGetActionStep k) \<Longrightarrow> silent c (getActionStep k)"
  by (rule silent_emit1[where ev = "EvGetActionStep k"]) (auto simp: getActionStep_def)

lemma silent_removeActionStep: "\<not> c (EvRemoveActionStep k) \<Longrightarrow> silent c (removeActionStep k)"
  by (simp add: silent_def removeActionStep_def emit_def)

lemma silent_addActionStep: "\<not> c (EvAddActionStep s) \<Longrightarrow> silent c (addActionStep s)"
  by (simp add: silent_def addActionStep_def emit_def)

lemma silent_deleteCacheForRequestId:
  "\<not> c (EvDeleteCacheForRequestId rid) \<Longrightarrow> silent c (deleteCacheForRequestId rid)"
  by (simp add: silent_def deleteCacheForRequestId_def emit_def)

lemma silent_cleanRequestCache:
  "\<not> c (EvCleanRequestCache rid) \<Longrightarrow> silent c (cleanRequestCache rid)"
  by (simp add: silent_def cleanRequestCache_def emit_def)

lemma silent_recordAction: "\<not> c (EvRecordAction a r) \<Longrightarrow> silent c (recordAction a r)"
  by (simp add: silent_def recordAction_def emit_def)

lemma silent_recordActionIfEnabled:
  "\<not> c (EvAddRecorderStep s) \<Longrightarrow> silent c (recordActionIfEnabled H s)"
  by (simp add: silent_def recordActionIfEnabled_def emit_def)

lemma silent_logPerform: "\<not> c (EvPerform m args x) \<Longrightarrow> silent c (logPerform m args x)"
  by (simp add: silent_def logPerform_def emit_def)

lemma silent_liftE: "silent c (liftE r)"
  by (cases r) (simp_all add: liftE_def silent_ret silent_raise)

lemma silent_waitForNewTab: "\<not> c (EvPage ''context.once'' [''page'']) \<Longrightarrow> silent c (waitForNewTab E)"
  by (simp add: silent_def waitForNewTab_def emit_def)

lemmas silent_intros =
  silent_ret silent_raise silent_andThen silent_tryCatch silent_page_op silent_page_op_ignore
  silent_waitForSettledDom silent_waitForAttached silent_getComponentString_op
  silent_processDom_op silent_processAllOfDom_op silent_getScreenshot_op silent_act_op
  silent_verifyActCompletion_op silent_getUrl silent_getActionStep silent_removeActionStep
  silent_addActionStep silent_deleteCacheForRequestId silent_cleanRequestCache
  silent_recordAction silent_recordActionIfEnabled silent_logPerform silent_liftE
  silent_waitForNewTab

lemma silent_typeChars: "page_only c \<Longrightarrow> silent c (typeChars E cs)"
  by (induction cs) (auto intro!: silent_intros simp: page_only_def)

lemma silent_findXpath: "page_only c \<Longrightarrow> silent c (findXpath E xs)"
  by (induction xs) (auto intro!: silent_intros simp: page_only_def)

lemma page_onlyD:
  assumes "page_only c"
  shows "\<not> c (EvPage nm args)" "\<not> c (EvWaitForSettledDom t)" "\<not> c (EvWaitFor x n)"
    "\<not> c (EvEvaluate x)" "\<not> c (EvProcessDom s)" "\<not> c EvProcessAllOfDom"
    "\<not> c (EvGetScreenshot k)" "\<not> c (EvVerifyActCompletion i)" "\<not> c (EvAddRecorderStep st)"
    "\<not> c (EvRecordAction a r)"
  using assms by (simp_all add: page_only_def)

lemma silent_if: "(b \<Longrightarrow> silent c m1) \<Longrightarrow> (\<not> b \<Longrightarrow> silent c m2) \<Longrightarrow> silent c (if b then m1 else m2)"
  by simp

lemma silent_case_option:
  "(x = None \<Longrightarrow> silent c m1) \<Longrightarrow> (\<And>y. x = Some y \<Longrightarrow> silent c (m2 y)) \<Longrightarrow>
   silent c (case x of None \<Rightarrow> m1 | Some y \<Rightarrow> m2 y)"
  by (cases x) simp_all

lemma silent_performBody:
  assumes "page_only c" "\<not> c (EvPerform m args x)"
  shows "silent c (performPlaywrightMethod E m args x t)"
  unfolding performPlaywrightMethod_def
  by (intro silent_intros silent_if silent_case_option silent_typeChars assms page_onlyD[OF assms(1)])

lemma silent_verifyActionCompletion:
  assumes "page_only c"
  shows "silent c (verifyActionCompletion E cpl vv rid g stps cl t)"
  unfolding verifyActionCompletion_def
  by (intro silent_intros silent_if silent_case_option assms page_onlyD[OF assms(1)])

lemma silent_check:
  assumes "page_only c"
  shows "silent c (checkIfCachedStepIsValid_oneXpath E x saved)"
  unfolding checkIfCachedStepIsValid_oneXpath_def
  by (intro silent_intros silent_if silent_case_option assms page_onlyD[OF assms(1)])

lemma silent_firstValidXpath: "page_only c \<Longrightarrow> silent c (firstValidXpath E xs saved)"
  by (induction xs) (auto intro!: silent_intros silent_check)

lemma silent_getValid: "page_only c \<Longrightarrow> silent c (getValidCachedStepXpath E xs saved)"
  by (simp add: getValidCachedStepXpath_def silent_firstValidXpath)

lemma oracle_or_lookupD:
  assumes "oracle_or_lookup c"
  shows "page_only c" "\<not> c (EvPerform m args x)" "\<not> c (EvAddActionStep s)"
    "\<not> c (EvRemoveActionStep k)" "\<not> c (EvCleanRequestCache rid)"
    "\<not> c (EvDeleteCacheForRequestId rid)"
  using assms
  by (auto simp: oracle_or_lookup_def page_only_def is_act_ev_def is_lookup_ev_def)

lemma oracle_or_lookup_simps [simp]:
  "oracle_or_lookup is_act_ev" "oracle_or_lookup is_lookup_ev" "oracle_or_lookup (\<lambda>ev. False)"
  by (simp_all add: oracle_or_lookup_def)

lemma silent_let: "silent c (f x) \<Longrightarrow> silent c (let y = x in f y)"
  by simp

lemma silent_purgeIfCaching:
  assumes "oracle_or_lookup c"
  shows "silent c (purgeIfCaching H rid)"
  unfolding purgeIfCaching_def
  by (intro silent_intros silent_if oracle_or_lookupD[OF assms])



lemma silent_act_noResponse:
  assumes "oracle_or_lookup c"
  shows "silent c (act_noResponse H E a pd)"
  unfolding act_noResponse_def
  by (intro silent_intros silent_if silent_purgeIfCaching assms
        page_onlyD[OF oracle_or_lookupD(1)[OF assms]])

lemma silent_act_catch:
  assumes "oracle_or_lookup c"
  shows "silent c (act_catch H a e)"
  unfolding act_catch_def
  by (intro silent_intros silent_if silent_purgeIfCaching assms
        page_onlyD[OF oracle_or_lookupD(1)[OF assms]])

lemma silent_act_inner:
  assumes "oracle_or_lookup c"
  shows "silent c (act_inner H E a pd r)"
  unfolding act_inner_def Let_def
  by (intro silent_intros silent_if silent_case_option silent_findXpath silent_performBody
        silent_verifyActionCompletion
        oracle_or_lookupD[OF assms] page_onlyD[OF oracle_or_lookupD(1)[OF assms]])

lemma silent_act_fresh_lookup: "silent is_lookup_ev (act_fresh H E a)"
  unfolding act_fresh_def Let_def
  by (intro silent_intros silent_if silent_case_option silent_act_noResponse silent_act_inner
        silent_act_catch oracle_or_lookupD[of is_lookup_ev]
        page_onlyD[OF oracle_or_lookupD(1)[of is_lookup_ev]])
     (simp_all add: is_lookup_ev_def)

lemma silent_act_step_skip:
  assumes "\<not> enableCaching H \<or> skipActionCacheForThisStep a"
  shows "silent is_lookup_ev (act_step H E a)"
  using assms unfolding act_step_def act_try_def
  by (auto intro!: silent_tryCatch silent_andThen silent_ret silent_purgeIfCaching
        silent_act_fresh_lookup silent_waitForSettledDom silent_page_op
        simp: is_lookup_ev_def)

lemma emits_firstD:
  "emits_first c ev m \<Longrightarrow> m w = (r, w') \<Longrightarrow>
   \<exists>evs. trace w' = trace w @ ev # evs \<and> filter c evs = []"
  unfolding emits_first_def by (metis snd_conv)

lemma emits_first_andThen:
  assumes "emits_first c ev m" "\<And>x. silent c (f x)"
  shows "emits_first c ev (andThen m f)"
  unfolding emits_first_def
proof
  fix w
  obtain r w1 where m: "m w = (r, w1)" by (cases "m w")
  from emits_firstD[OF assms(1) m] obtain e1
    where e1: "trace w1 = trace w @ ev # e1" "filter c e1 = []" by blast
  show "\<exists>evs. trace (snd (andThen m f w)) = trace w @ ev # evs \<and> filter c evs = []"
  proof (cases r)
    case (Inl e)
    with m e1 show ?thesis by (simp add: andThen_def)
  next
    case (Inr x)
    obtain r2 w2 where f: "f x w1 = (r2, w2)" by (cases "f x w1")
    from silentD[OF assms(2) f] obtain e2 where "trace w2 = trace w1 @ e2" "filter c e2 = []"
      by blast
    with m e1 Inr f show ?thesis by (simp add: andThen_def)
  qed
qed


lemma emits_first_logPerform: "emits_first c (EvPerform m args x) (logPerform m args x)"
  by (simp add: emits_first_def logPerform_def emit_def)

lemma page_only_perform [simp]: "page_only is_perform_ev"
  by (simp add: page_only_def is_perform_ev_def)

lemma emits_first_perform:
  "emits_first is_perform_ev (EvPerform m args x) (performPlaywrightMethod E m args x t)"
  unfolding performPlaywrightMethod_def
  by (intro emits_first_andThen emits_first_logPerform silent_intros silent_if
        silent_case_option silent_typeChars page_onlyD[OF page_only_perform] page_only_perform)

lemma emits_first_replay:
  "emits_first is_perform_ev
     (EvPerform (pc_method (cs_playwrightCommand cs))
        (map (\<lambda>arg. JString (fillInVariables E arg (variables a)))
           (pc_args (cs_playwrightCommand cs))) x)
     (replayCachedStep H E a cs x)"
  unfolding replayCachedStep_def Let_def playwrightCommand.select_convs map_map comp_def
  by (intro emits_first_andThen emits_first_perform silent_intros silent_if
        silent_verifyActionCompletion page_onlyD[OF page_only_perform] page_only_perform)

lemma since_append [simp]: "trace w' = trace w @ evs \<Longrightarrow> since w w' = evs"
  by (simp add: since_def)

lemma runCached_hit:
  assumes "enableCaching H"
    and "actionCache w (keyOfObj (cacheObjOf E a w)) = Some cs"
    and "getValidCachedStepXpath E (cs_xpaths cs) (cs_componentString cs)
           (emit (EvGetActionStep (cacheObjOf E a w)) w) = (Inr (Some x), w1)"
    and "x \<noteq> []"
  shows "runCachedActionIfAvailable H E a w =
         tryCatch (replayCachedStep H E a cs x)
           (\<lambda>exception. andThen (removeActionStep (cacheObjOf E a w)) (\<lambda>_. ret None)) w1"
  using assms
  by (simp add: runCachedActionIfAvailable_def andThen_def getUrl_def getActionStep_def
        cacheObjOf_def tryCatch_def emit_def)


lemma page_only_False [simp]: "page_only (\<lambda>ev. False)"
  by (simp add: page_only_def)

lemma extendsD:
  assumes "silent (\<lambda>ev. False) m" "m w = (r, w')"
  shows "\<exists>evs. trace w' = trace w @ evs"
  using silentD[OF assms] by blast

lemma findXpath_member:
  "findXpath E xs w = (Inr (Some x), w') \<Longrightarrow> x \<in> set xs"
  by (induction xs arbitrary: w)
     (auto simp: ret_def andThen_def waitForAttached_def split: if_splits)

lemma firstValidXpath_member:
  "firstValidXpath E xs saved w = (Inr (Some x), w') \<Longrightarrow> x \<in> set xs"
  by (induction xs arbitrary: w)
     (auto simp: ret_def andThen_def split: if_splits prod.splits sum.splits)

lemma newStep_nonempty: "newlineUnlessEnded s @ ''## Step: '' @ rest \<noteq> []"
  by simp

lemma andThen_InrE:
  assumes "andThen m f w = (Inr y, w')"
  obtains x w1 where "m w = (Inr x, w1)" "f x w1 = (Inr y, w')"
  using assms by (auto simp: andThen_def split: prod.splits sum.splits)

lemma newStepStringOf_nonempty [simp]: "newStepStringOf s r t \<noteq> []"
  by (simp add: newStepStringOf_def)





lemma andThen_assoc: "andThen (andThen m f) g = andThen m (\<lambda>x. andThen (f x) g)"
  by (auto simp: andThen_def fun_eq_iff split: prod.splits sum.splits)

lemma andThen_ret: "andThen (ret x) f = f x"
  by (auto simp: andThen_def ret_def fun_eq_iff)

lemma act_fresh_consult:
  "act_fresh H E a0 =
     andThen (consultOracle H E (downgradeVision a0)) (\<lambda>p.
       case snd p of
         None \<Rightarrow> act_noResponse H E (downgradeVision a0) (fst p)
       | Some r \<Rightarrow> tryCatch (act_inner H E (downgradeVision a0) (fst p) r)
                    (act_catch H (downgradeVision a0)))"
  by (simp add: act_fresh_def consultOracle_def Let_def andThen_assoc andThen_ret
        cong: option.case_cong)


lemma purgeIfCaching_result:
  "\<exists>w'. purgeIfCaching H rid w = (Inr (), w') \<and> trace w' = trace w @ purgeEvents H rid \<and>
        (enableCaching H \<longrightarrow> purgeRequested rid w') \<and> (\<not> enableCaching H \<longrightarrow> w' = w)"
  by (auto simp: purgeIfCaching_def purgeEvents_def andThen_def ret_def cleanRequestCache_def
        deleteCacheForRequestId_def emit_def purgeRequested_def)

lemma scan_purgeEvents [simp]: "filter scan_ev (purgeEvents H rid) = []"
  by (simp add: purgeEvents_def scan_ev_def is_act_ev_def is_scroll_ev_def)


lemma act_step_of_try:
  assumes "act_try H E a w = (r, w1)"
  shows "(\<exists>out. r = Inr out \<and> act_step H E a w = (Inr out, w1)) \<or>
         (\<exists>e w'. r = Inl e \<and>
            act_step H E a w =
              (Inr (Return \<lparr>success = False,
                             message = ''Error performing action - C: '' @ exn_message e,
                             res_action = action a\<rparr>), w') \<and>
            trace w' = trace w1 @ purgeEvents H (requestId a) \<and>
            (enableCaching H \<longrightarrow> purgeRequested (requestId a) w'))"
proof (cases r)
  case (Inr out)
  with assms show ?thesis by (simp add: act_step_def tryCatch_def)
next
  case (Inl e)
  from purgeIfCaching_result[of H "requestId a" w1] obtain w' where
    "purgeIfCaching H (requestId a) w1 = (Inr (), w')"
    "trace w' = trace w1 @ purgeEvents H (requestId a)"
    "enableCaching H \<longrightarrow> purgeRequested (requestId a) w'" by blast
  with Inl assms show ?thesis by (simp add: act_step_def tryCatch_def andThen_def ret_def)
qed


lemma scan_initEvents [simp]: "filter scan_ev (initEvents a) = []"
  by (simp add: initEvents_def scan_ev_def is_act_ev_def is_scroll_ev_def)


lemma downgradeVision_fields [simp]:
  "action (downgradeVision a) = action a" "steps (downgradeVision a) = steps a"
  "chunksSeen (downgradeVision a) = chunksSeen a" "llmClient (downgradeVision a) = llmClient a"
  "retries (downgradeVision a) = retries a" "requestId (downgradeVision a) = requestId a"
  "variables (downgradeVision a) = variables a"
  "previousSelectors (downgradeVision a) = previousSelectors a"
  "skipActionCacheForThisStep (downgradeVision a) = skipActionCacheForThisStep a"
  "domSettleTimeoutMs (downgradeVision a) = domSettleTimeoutMs a"
  by (simp_all add: downgradeVision_def)

lemma downgradeVision_idem [simp]: "downgradeVision (downgradeVision a) = downgradeVision a"
  by (simp add: downgradeVision_def)

lemma downgradeVision_update [simp]:
  "downgradeVision ((downgradeVision a)\<lparr>steps := s, chunksSeen := cs, retries := n\<rparr>) =
     (downgradeVision a)\<lparr>steps := s, chunksSeen := cs, retries := n\<rparr>"
  "downgradeVision ((downgradeVision a)\<lparr>retries := n\<rparr>) = (downgradeVision a)\<lparr>retries := n\<rparr>"
  by (simp_all add: downgradeVision_def)



lemma freshMode_update [simp]:
  "freshMode H ((downgradeVision a)\<lparr>steps := s, chunksSeen := cs, retries := n\<rparr>) = freshMode H a"
  "freshMode H ((downgradeVision a)\<lparr>useVision := v, retries := n\<rparr>) = freshMode H a"
  "freshMode H ((downgradeVision a)\<lparr>retries := n\<rparr>) = freshMode H a"
  by (simp_all add: freshMode_def)





lemma scan_absorb [simp]:
  "(scan_ev x \<and> is_act_ev x) = is_act_ev x" "(scan_ev x \<and> is_scroll_ev x) = is_scroll_ev x"
  "((is_act_ev x \<or> is_scroll_ev x) \<and> is_act_ev x) = is_act_ev x"
  "((is_act_ev x \<or> is_scroll_ev x) \<and> is_scroll_ev x) = is_scroll_ev x"
  by (auto simp: scan_ev_def)











lemmas io_defs = andThen_def tryCatch_def ret_def raise_def emit_def page_op_def page_op_ignore_def
  getUrl_def waitForSettledDom_def waitForAttached_def getComponentString_op_def processDom_op_def
  processAllOfDom_op_def getScreenshot_op_def act_op_def verifyActCompletion_op_def
  getActionStep_def removeActionStep_def addActionStep_def deleteCacheForRequestId_def
  cleanRequestCache_def purgeIfCaching_def recordAction_def recordActionIfEnabled_def
  logPerform_def waitForNewTab_def liftE_def keyOfObj_def keyOfStep_def

lemmas handler_defs = performPlaywrightMethod_def verifyActionCompletion_def
  checkIfCachedStepIsValid_oneXpath_def getValidCachedStepXpath_def replayCachedStep_def
  runCachedActionIfAvailable_def act_noResponse_def act_inner_def act_catch_def
  downgradeVision_def act_fresh_def act_try_def act_step_def firstArgToString_def
  toStringOrEmpty_def substituteArgs_def getClient_def newLLMClient_def

lemmas demo_defs = demoFill_def demoButton_def demoSelectorMap_def demoDom_def demoResponse_def
  demoEnv_def demoHandler_def demoArgs_def emptyWorld_def nullEnv_def







lemma filter_act_initEvents [simp]: "filter is_act_ev (initEvents a) = []"
  by (simp add: initEvents_def is_act_ev_def)

lemma filter_act_purgeEvents [simp]: "filter is_act_ev (purgeEvents H rid) = []"
  by (simp add: purgeEvents_def is_act_ev_def)



lemma verify_caught:
  "\<exists>b w'. tryCatch (verifyActionCompletion E cpl vv rid g stps cl t) (\<lambda>error. ret True) w =
     (Inr b, w') \<and>
     (\<forall>e. fst (verifyActionCompletion E cpl vv rid g stps cl t w) = Inl e \<longrightarrow> b = True)"
  by (cases "verifyActionCompletion E cpl vv rid g stps cl t w")
     (auto simp: tryCatch_def ret_def split: sum.splits)







lemmas cached_defs = demoAttached_def demoLive_def pageEnv_def demoSaved_def demoStep_def
  cachedWorld_def cachedArgs_def

lemmas fingerprint_defs = getComponentString_def removeAttributes_def attributesToKeep_def
  outerHTML_def voidElements_def serializeAttr_def js_trim_def normalize_ws_def is_ws_def

theorem getValidCachedStepXpath_reverse_first_witness:
  "stablePage pageEnv demoAttached demoLive \<and>
   fst (getValidCachedStepXpath pageEnv [''//button[1]'', ''//a'', ''//gone''] demoSaved emptyWorld) =
     Inr (Some ''//button[1]'') \<and>
   \<not> spec_candidateValid demoAttached demoLive demoSaved ''//gone'' \<and>
   \<not> spec_candidateValid demoAttached demoLive demoSaved ''//a'' \<and>
   spec_candidateValid demoAttached demoLive demoSaved ''//button[1]''"
proof -
  have h: "stablePage pageEnv demoAttached demoLive"
    by (simp add: stablePage_def pageEnv_def demoEnv_def)
  have v: "spec_validator demoAttached demoLive [''//button[1]'', ''//a'', ''//gone''] demoSaved =
      Some ''//button[1]''"
    by (simp add: spec_validator_def spec_candidateValid_def cached_defs demo_defs
          fingerprint_defs)
  have c: "\<not> spec_candidateValid demoAttached demoLive demoSaved ''//gone''"
    "\<not> spec_candidateValid demoAttached demoLive demoSaved ''//a''"
    "spec_candidateValid demoAttached demoLive demoSaved ''//button[1]''"
    by (simp_all add: spec_candidateValid_def cached_defs demo_defs fingerprint_defs)
  from getValidCachedStepXpath_reverse_first[OF h,
      of "[''//button[1]'', ''//a'', ''//gone'']" demoSaved emptyWorld] h v c
  show ?thesis by simp
qed


lemma check_total: "\<exists>b. fst (checkIfCachedStepIsValid_oneXpath E x saved w) = Inr b"
  by (cases "andThen (waitForAttached E x 5000)
         (\<lambda>locator. if \<not> locator then ret False
            else andThen (getComponentString_op E x) (\<lambda>_.
                 andThen (getComponentString_op E x) (\<lambda>currentComponent.
                 if currentComponent = [] \<or> saved = [] then ret False
                 else if normalize_ws currentComponent \<noteq> normalize_ws saved then ret False
                 else ret True))) w")
     (auto simp: checkIfCachedStepIsValid_oneXpath_def tryCatch_def ret_def split: sum.splits)

lemma firstValidXpath_total: "\<exists>v. fst (firstValidXpath E xs saved w) = Inr v"
proof (induction xs arbitrary: w)
  case Nil
  show ?case by (simp add: ret_def)
next
  case (Cons x xs)
  obtain r w1 where c: "checkIfCachedStepIsValid_oneXpath E x saved w = (r, w1)"
    by (cases "checkIfCachedStepIsValid_oneXpath E x saved w")
  with check_total[of E x saved w] obtain b where "r = Inr b" by auto
  with c Cons[of w1] show ?case by (auto simp: andThen_def ret_def)
qed

lemma getValid_total: "\<exists>v. fst (getValidCachedStepXpath E xs saved w) = Inr v"
  by (simp add: getValidCachedStepXpath_def firstValidXpath_total)

lemma page_only_lookup [simp]: "page_only is_lookup_ev" "page_only is_act_ev" "page_only is_remove_ev"
  by (simp_all add: page_only_def is_lookup_ev_def is_act_ev_def is_remove_ev_def)


lemma act_try_cached:
  assumes "enableCaching H" "\<not> skipActionCacheForThisStep a" "initSucceeds E a w"
  shows "act_try H E a w =
     andThen (runCachedActionIfAvailable H E a)
       (\<lambda>response. case response of
          Some out \<Rightarrow> ret out
        | None \<Rightarrow> ret (Recurse (a\<lparr>skipActionCacheForThisStep := True\<rparr>))) (afterInit a w)"
  using assms
  by (simp add: act_try_def initSucceeds_def afterInit_def andThen_def waitForSettledDom_def
        page_op_def emit_def initEvents_def)

lemma afterInit_fields [simp]:
  "trace (afterInit a w) = trace w @ initEvents a" "actionCache (afterInit a w) = actionCache w"
  by (simp_all add: afterInit_def)

lemma filter_lookup_initEvents [simp]:
  "filter is_lookup_ev (initEvents a) = []" "filter is_remove_ev (initEvents a) = []"
  "filter is_perform_ev (initEvents a) = []"
  by (simp_all add: initEvents_def is_lookup_ev_def is_remove_ev_def is_perform_ev_def)




lemma andThen_raise: "andThen (raise e) f = raise e"
  by (auto simp: andThen_def raise_def fun_eq_iff)

lemma andThen_if: "andThen (if b then m1 else m2) f = (if b then andThen m1 f else andThen m2 f)"
  by simp

lemma andThen_case_option:
  "andThen (case x of None \<Rightarrow> m1 | Some y \<Rightarrow> m2 y) f =
     (case x of None \<Rightarrow> andThen m1 f | Some y \<Rightarrow> andThen (m2 y) f)"
  by (cases x) simp_all

lemma act_inner_split:
  "act_inner H E a pd r =
     andThen (act_execute H E a pd r) (\<lambda>p.
     andThen (tryCatch (verifyActionCompletion E (r_completed r) (verifierUseVision a)
                (requestId a) (action a) (fst p) (llmClient a) (domSettleTimeoutMs a))
              (\<lambda>error. ret True)) (act_conclude a r p))"
  unfolding act_inner_def act_execute_def act_conclude_def Let_def
  by (simp add: andThen_assoc andThen_ret andThen_raise andThen_case_option andThen_if
        cong: option.case_cong if_cong)

lemma verify_not_claimed: "verifyActionCompletion E False vv rid g stps cl t w = (Inr False, w)"
  by (simp add: verifyActionCompletion_def ret_def)

lemma verify_raise_completed:
  assumes "fst (verifyActionCompletion E cpl vv rid g stps cl t w) = Inl e"
  shows "\<exists>w'. tryCatch (verifyActionCompletion E cpl vv rid g stps cl t) (\<lambda>error. ret True) w =
         (Inr True, w')"
  using assms
  by (cases "verifyActionCompletion E cpl vv rid g stps cl t w")
     (auto simp: tryCatch_def ret_def)

lemma act_conclude_total: "\<exists>out w'. act_conclude a r p b w = (Inr out, w')"
  by (simp add: act_conclude_def ret_def andThen_def recordAction_def)

lemma act_inner_raises_iff:
  "act_inner H E a pd r w = (Inl e, w') \<longleftrightarrow> act_execute H E a pd r w = (Inl e, w')"
proof (cases "act_execute H E a pd r w")
  case (Pair res w1)
  show ?thesis
  proof (cases res)
    case (Inl e1)
    with Pair show ?thesis by (simp add: act_inner_split andThen_def)
  next
    case (Inr p)
    from verify_caught[of E "r_completed r" "verifierUseVision a" "requestId a" "action a" "fst p"
        "llmClient a" "domSettleTimeoutMs a" w1]
    obtain b w2 where v: "tryCatch (verifyActionCompletion E (r_completed r) (verifierUseVision a)
        (requestId a) (action a) (fst p) (llmClient a) (domSettleTimeoutMs a))
        (\<lambda>error. ret True) w1 = (Inr b, w2)" by blast
    from act_conclude_total[of a r p b w2] obtain out w3 where
      "act_conclude a r p b w2 = (Inr out, w3)" by blast
    with Pair Inr v show ?thesis by (simp add: act_inner_split andThen_def)
  qed
qed

lemma act_inner_verification_raised:
  assumes "act_execute H E a pd r w = (Inr (stps, x), w1)" "r_completed r"
    and "fst (verifyActionCompletion E True (verifierUseVision a) (requestId a) (action a) stps
           (llmClient a) (domSettleTimeoutMs a) w1) = Inl e"
  shows "fst (act_inner H E a pd r w) =
           Inr (Return \<lparr>success = True,
                        message = ''Action completed successfully: '' @ stps @ r_step r,
                        res_action = action a\<rparr>)"
proof -
  from verify_raise_completed[OF assms(3)] obtain w2 where
    "tryCatch (verifyActionCompletion E True (verifierUseVision a) (requestId a) (action a) stps
        (llmClient a) (domSettleTimeoutMs a)) (\<lambda>error. ret True) w1 = (Inr True, w2)" by blast
  with assms(1,2) show ?thesis
    by (simp add: act_inner_split andThen_def act_conclude_def recordAction_def ret_def)
qed

lemma act_inner_not_claimed:
  assumes "act_execute H E a pd r w = (Inr (stps, x), w1)" "\<not> r_completed r"
  shows "act_inner H E a pd r w =
           (Inr (Recurse (a\<lparr>steps := stps, previousSelectors := previousSelectors a @ [x],
                            skipActionCacheForThisStep := False, retries := 0\<rparr>)), w1)"
  using assms
  by (simp add: act_inner_split andThen_def act_conclude_def ret_def verify_not_claimed
        tryCatch_def)

lemma runCached_replay_raises:
  assumes "enableCaching H"
    and "actionCache w (keyOfObj (cacheObjOf E a w)) = Some cs"
    and "getValidCachedStepXpath E (cs_xpaths cs) (cs_componentString cs)
           (emit (EvGetActionStep (cacheObjOf E a w)) w) = (Inr (Some x), w1)"
    and "x \<noteq> []"
    and "fst (replayCachedStep H E a cs x w1) = Inl e"
  shows "\<exists>w'. runCachedActionIfAvailable H E a w = (Inr None, w') \<and>
           actionCache w' (keyOfObj (cacheObjOf E a w)) = None \<and>
           filter is_remove_ev (since w w') = [EvRemoveActionStep (cacheObjOf E a w)]"
proof -
  obtain w2 where r: "replayCachedStep H E a cs x w1 = (Inl e, w2)"
    using assms(5) by (cases "replayCachedStep H E a cs x w1") auto
  from silentD[OF silent_getValid[OF page_only_lookup(3)] assms(3)]
  obtain e1 where e1: "trace w1 = trace w @ EvGetActionStep (cacheObjOf E a w) # e1"
    "filter is_remove_ev e1 = []"
    by (auto simp: emit_def)
  have "silent is_remove_ev (replayCachedStep H E a cs x)"
    unfolding replayCachedStep_def Let_def
    by (intro silent_andThen silent_performBody silent_getUrl silent_recordActionIfEnabled
          silent_processDom_op silent_if silent_verifyActionCompletion silent_ret
          page_only_lookup)
       (simp_all add: is_remove_ev_def)
  from silentD[OF this r]
  obtain e2 where e2: "trace w2 = trace w1 @ e2" "filter is_remove_ev e2 = []" by auto
  let ?w' = "emit (EvRemoveActionStep (cacheObjOf E a w))
               (w2\<lparr>actionCache := (actionCache w2)(keyOfObj (cacheObjOf E a w) := None)\<rparr>)"
  have "runCachedActionIfAvailable H E a w = (Inr None, ?w')"
    using runCached_hit[OF assms(1-4)] r
    by (simp add: tryCatch_def andThen_def removeActionStep_def ret_def)
  moreover have "actionCache ?w' (keyOfObj (cacheObjOf E a w)) = None" by (simp add: emit_def)
  moreover have "filter is_remove_ev (since w ?w') = [EvRemoveActionStep (cacheObjOf E a w)]"
    using e1 e2 by (simp add: emit_def since_def is_remove_ev_def is_lookup_ev_def)
  ultimately show ?thesis by blast
qed

text \<open>
  The verification on the fresh path. A step that does not claim completion is not
  shown to the verification oracle: the verification answers false and leaves the
  world as it is, and the fresh step goes on to the next call. When the verification
  raises, the exception is caught where it is called and the verdict is true: the
  inner block raises exactly when the resolution or the execution of the step does,
  and a fresh step that claims completion and whose verification raises ends the call
  with a success result.
\<close>

theorem fresh_verification_exception_completes:
  "verifyActionCompletion E False vv rid g stps cl t w = (Inr False, w) \<and>
   (fst (verifyActionCompletion E cpl vv rid g stps cl t w) = Inl e \<longrightarrow>
      fst (tryCatch (verifyActionCompletion E cpl vv rid g stps cl t) (\<lambda>error. ret True) w) =
        Inr True) \<and>
   (act_inner H E a pd rsp w = (Inl e, w') \<longleftrightarrow> act_execute H E a pd rsp w = (Inl e, w')) \<and>
   (act_execute H E a pd rsp w = (Inr (stps, x), w1) \<and> r_completed rsp \<and>
    fst (verifyActionCompletion E True (verifierUseVision a) (requestId a) (action a) stps
           (llmClient a) (domSettleTimeoutMs a) w1) = Inl e \<longrightarrow>
      fst (act_inner H E a pd rsp w) =
        Inr (Return \<lparr>success = True,
                     message = ''Action completed successfully: '' @ stps @ r_step rsp,
                     res_action = action a\<rparr>)) \<and>
   (act_execute H E a pd rsp w = (Inr (stps, x), w1) \<and> \<not> r_completed rsp \<longrightarrow>
      act_inner H E a pd rsp w =
        (Inr (Recurse (a\<lparr>steps := stps, previousSelectors := previousSelectors a @ [x],
                         skipActionCacheForThisStep := False, retries := 0\<rparr>)), w1))"
proof (intro conjI impI)
  show "verifyActionCompletion E False vv rid g stps cl t w = (Inr False, w)"
    by (rule verify_not_claimed)
  show "fst (tryCatch (verifyActionCompletion E cpl vv rid g stps cl t) (\<lambda>error. ret True) w) =
        Inr True"
    if "fst (verifyActionCompletion E cpl vv rid g stps cl t w) = Inl e"
    using verify_raise_completed[OF that] by auto
  show "act_inner H E a pd rsp w = (Inl e, w') \<longleftrightarrow> act_execute H E a pd rsp w = (Inl e, w')"
    by (rule act_inner_raises_iff)
  show "fst (act_inner H E a pd rsp w) =
        Inr (Return \<lparr>success = True,
                     message = ''Action completed successfully: '' @ stps @ r_step rsp,
                     res_action = action a\<rparr>)"
    if "act_execute H E a pd rsp w = (Inr (stps, x), w1) \<and> r_completed rsp \<and>
        fst (verifyActionCompletion E True (verifierUseVision a) (requestId a) (action a) stps
           (llmClient a) (domSettleTimeoutMs a) w1) = Inl e"
    using that act_inner_verification_raised[of H E a pd rsp w stps x w1 e] by blast
  show "act_inner H E a pd rsp w =
        (Inr (Recurse (a\<lparr>steps := stps, previousSelectors := previousSelectors a @ [x],
                         skipActionCacheForThisStep := False, retries := 0\<rparr>)), w1)"
    if "act_execute H E a pd rsp w = (Inr (stps, x), w1) \<and> \<not> r_completed rsp"
    using that act_inner_not_claimed[of H E a pd rsp w stps x w1] by blast
qed

text \<open>
  C7. What the claim says of a step that claims completion holds of a fresh step (the
  theorem before this one, and the run of act at its end here) and fails on the replay
  of a cached step. The store holds a step that claims completion, its selector
  \<^verbatim>\<open>//button[1]\<close> validates, the stored command runs, and the verification oracle
  raises. The replay awaits \<^verbatim>\<open>_verifyActionCompletion\<close> without the \<^verbatim>\<open>.catch\<close> of the
  fresh path, so the exception reaches the handler of the replay: the call does not
  return success, it deletes the valid cached step and re-enters with the bypass flag
  set and the narrative as it was before the command ran. The same oracle failure on
  the fresh path ends the call with success.
\<close>

theorem cached_replay_verification_raise:
  "cs_completed demoStep \<and>
   fst (act_step demoHandler verifyDownPage cachedArgs cachedWorld) =
     Inr (Recurse (cachedArgs\<lparr>skipActionCacheForThisStep := True\<rparr>)) \<and>
   filter is_perform_ev (trace (snd (act_step demoHandler verifyDownPage cachedArgs cachedWorld))) =
     [EvPerform ''fill'' [JString ''alice''] ''//button[1]''] \<and>
   length (filter is_verify_ev
     (trace (snd (act_step demoHandler verifyDownPage cachedArgs cachedWorld)))) = 1 \<and>
   actionCache (snd (act_step demoHandler verifyDownPage cachedArgs cachedWorld))
     (''https://shop.example/'', ''submit the form'', []) = None \<and>
   r_completed demoResponse \<and>
   map_option success
     (resultOf (fst (act_step demoHandler verifyDownPage demoArgs emptyWorld))) = Some True \<and>
   length (filter is_verify_ev
     (trace (snd (act_step demoHandler verifyDownPage demoArgs emptyWorld)))) = 1"
  by (simp add: io_defs handler_defs verifyDownPage_def cached_defs demo_defs fingerprint_defs
        is_perform_ev_def is_verify_ev_def resultOf_def Let_def)

lemma replay_split:
  "replayCachedStep H E a cs x =
     andThen (replay_execute H E a cs x) (\<lambda>_.
     andThen
       (if cs_completed cs
        then verifyActionCompletion E True (verifierUseVision a) (requestId a) (action a)
               (steps a @ cs_newStepString cs) (llmClient a) (domSettleTimeoutMs a)
        else ret False) (\<lambda>actionCompleted.
     if actionCompleted then
       ret (Some (Return \<lparr>success = True,
                          message = ''action completed successfully using cached step'',
                          res_action = action a\<rparr>))
     else
       ret (Some (Recurse (a\<lparr>steps := steps a @ cs_newStepString cs,
                             previousSelectors := previousSelectors a @ take 1 (cs_xpaths cs),
                             skipActionCacheForThisStep := False\<rparr>)))))"
  unfolding replayCachedStep_def replay_execute_def Let_def
  by (simp add: andThen_assoc andThen_ret)

lemma replay_command_raises:
  assumes "performPlaywrightMethod E (pc_method (cs_playwrightCommand cs))
             (map (\<lambda>arg. JString (fillInVariables E arg (variables a)))
                (pc_args (cs_playwrightCommand cs))) x (domSettleTimeoutMs a) w1 = (Inl e, w2)"
  shows "replayCachedStep H E a cs x w1 = (Inl e, w2)"
  using assms
  by (simp add: replayCachedStep_def Let_def andThen_def comp_def)


lemma getValid_member:
  assumes "getValidCachedStepXpath E xs saved w = (Inr (Some x), w')"
  shows "x \<in> set xs"
  using assms firstValidXpath_member[of E "rev xs" saved w x w']
  by (simp add: getValidCachedStepXpath_def)

lemma key_grows:
  "xs \<noteq> [] \<Longrightarrow>
   keyOfObj (cacheObjOf E (a\<lparr>steps := s, previousSelectors := previousSelectors a @ take 1 xs,
                              skipActionCacheForThisStep := b\<rparr>) wn) \<noteq>
   keyOfObj (cacheObjOf E a w)"
  by (cases xs) (simp_all add: keyOfObj_def cacheObjOf_def)

lemma act_step_replayed:
  assumes "enableCaching H" "\<not> skipActionCacheForThisStep a" "initSucceeds E a w"
    and "actionCache w (keyOfObj (cacheObjOf E a (afterInit a w))) = Some cs"
    and "getValidCachedStepXpath E (cs_xpaths cs) (cs_componentString cs)
           (emit (EvGetActionStep (cacheObjOf E a (afterInit a w))) (afterInit a w)) =
         (Inr (Some x), w1)"
    and "x \<noteq> []"
  shows "act_try H E a w =
     andThen (tryCatch (replayCachedStep H E a cs x)
                (\<lambda>exception. andThen (removeActionStep (cacheObjOf E a (afterInit a w)))
                   (\<lambda>_. ret None)))
       (\<lambda>response. case response of
          Some out \<Rightarrow> ret out
        | None \<Rightarrow> ret (Recurse (a\<lparr>skipActionCacheForThisStep := True\<rparr>))) w1"
proof -
  have hit: "actionCache (afterInit a w) (keyOfObj (cacheObjOf E a (afterInit a w))) = Some cs"
    using assms(4) by simp
  show ?thesis
    using act_try_cached[OF assms(1,2,3)] runCached_hit[OF assms(1) hit assms(5,6)]
    by (simp add: andThen_def)
qed

text \<open>
  C8 (as amended). A validated cached step is replayed. When its command and the steps
  up to the verification run and the verification answers false (or the step does not
  claim completion, and the verification is not asked), act recurses for the same goal
  with the narrative grown by the stored fragment, the first stored selector of the
  step appended to the chain of previous selectors, and the bypass flag cleared: the
  next call looks the cache up again, under a key that differs from the key of this
  call. When the execution of the command raises, the cached step is deleted under
  the key of this call and act re-enters with the bypass flag set and the chain of
  selectors unchanged; that call makes no cache lookup.
\<close>

theorem cached_replay_fallthrough:
  assumes "enableCaching H" "\<not> skipActionCacheForThisStep a" "initSucceeds E a w"
    and "actionCache w (keyOfObj (cacheObjOf E a (afterInit a w))) = Some cs"
    and "getValidCachedStepXpath E (cs_xpaths cs) (cs_componentString cs)
           (emit (EvGetActionStep (cacheObjOf E a (afterInit a w))) (afterInit a w)) =
         (Inr (Some x), w1)"
    and "x \<noteq> []"
  shows "(\<forall>w2 w3. replay_execute H E a cs x w1 = (Inr (), w2) \<and> cs_completed cs \<and>
            verifyActionCompletion E True (verifierUseVision a) (requestId a) (action a)
              (steps a @ cs_newStepString cs) (llmClient a) (domSettleTimeoutMs a) w2 =
              (Inr False, w3) \<longrightarrow>
            act_step H E a w =
              (Inr (Recurse (a\<lparr>steps := steps a @ cs_newStepString cs,
                               previousSelectors := previousSelectors a @ take 1 (cs_xpaths cs),
                               skipActionCacheForThisStep := False\<rparr>)), w3)) \<and>
         (\<forall>w2. replay_execute H E a cs x w1 = (Inr (), w2) \<and> \<not> cs_completed cs \<longrightarrow>
            act_step H E a w =
              (Inr (Recurse (a\<lparr>steps := steps a @ cs_newStepString cs,
                               previousSelectors := previousSelectors a @ take 1 (cs_xpaths cs),
                               skipActionCacheForThisStep := False\<rparr>)), w2)) \<and>
         (\<forall>w2 w3. replay_execute H E a cs x w1 = (Inr (), w2) \<and> cs_completed cs \<and>
            verifyActionCompletion E True (verifierUseVision a) (requestId a) (action a)
              (steps a @ cs_newStepString cs) (llmClient a) (domSettleTimeoutMs a) w2 =
              (Inr True, w3) \<longrightarrow>
            act_step H E a w =
              (Inr (Return \<lparr>success = True,
                             message = ''action completed successfully using cached step'',
                             res_action = action a\<rparr>), w3)) \<and>
         (\<forall>e w2. performPlaywrightMethod E (pc_method (cs_playwrightCommand cs))
                    (map (\<lambda>arg. JString (fillInVariables E arg (variables a)))
                       (pc_args (cs_playwrightCommand cs))) x (domSettleTimeoutMs a) w1 =
                  (Inl e, w2) \<longrightarrow>
            (\<exists>w'. act_step H E a w =
                    (Inr (Recurse (a\<lparr>skipActionCacheForThisStep := True\<rparr>)), w') \<and>
                  trace w' = trace w2 @ [EvRemoveActionStep (cacheObjOf E a (afterInit a w))] \<and>
                  actionCache w' (keyOfObj (cacheObjOf E a (afterInit a w))) = None)) \<and>
         (\<forall>wn. keyOfObj (cacheObjOf E
                  (a\<lparr>steps := steps a @ cs_newStepString cs,
                     previousSelectors := previousSelectors a @ take 1 (cs_xpaths cs),
                     skipActionCacheForThisStep := False\<rparr>) wn) \<noteq>
               keyOfObj (cacheObjOf E a (afterInit a w))) \<and>
         (\<forall>wn. filter is_lookup_ev
                  (since wn (snd (act_step H E (a\<lparr>skipActionCacheForThisStep := True\<rparr>) wn))) = [])"
proof (intro conjI allI impI)
  note tr = act_step_replayed[OF assms]
  let ?rec = "Recurse (a\<lparr>steps := steps a @ cs_newStepString cs,
                         previousSelectors := previousSelectors a @ take 1 (cs_xpaths cs),
                         skipActionCacheForThisStep := False\<rparr>)"
  have step: "act_step H E a w = (Inr out, wz)"
    if "replayCachedStep H E a cs x w1 = (Inr (Some out), wz)" for out wz
  proof -
    have "act_try H E a w = (Inr out, wz)"
      using tr that by (simp add: andThen_def tryCatch_def ret_def)
    from act_step_of_try[OF this] show ?thesis by auto
  qed
  {
    fix w2 w3
    assume h: "replay_execute H E a cs x w1 = (Inr (), w2) \<and> cs_completed cs \<and>
            verifyActionCompletion E True (verifierUseVision a) (requestId a) (action a)
              (steps a @ cs_newStepString cs) (llmClient a) (domSettleTimeoutMs a) w2 =
              (Inr False, w3)"
    then have "replayCachedStep H E a cs x w1 = (Inr (Some ?rec), w3)"
      by (simp add: replay_split andThen_def ret_def)
    from step[OF this] show "act_step H E a w = (Inr ?rec, w3)" .
  }
  {
    fix w2
    assume h: "replay_execute H E a cs x w1 = (Inr (), w2) \<and> \<not> cs_completed cs"
    then have "replayCachedStep H E a cs x w1 = (Inr (Some ?rec), w2)"
      by (simp add: replay_split andThen_def ret_def)
    from step[OF this] show "act_step H E a w = (Inr ?rec, w2)" .
  }
  {
    fix w2 w3
    assume h: "replay_execute H E a cs x w1 = (Inr (), w2) \<and> cs_completed cs \<and>
            verifyActionCompletion E True (verifierUseVision a) (requestId a) (action a)
              (steps a @ cs_newStepString cs) (llmClient a) (domSettleTimeoutMs a) w2 =
              (Inr True, w3)"
    then have "replayCachedStep H E a cs x w1 =
        (Inr (Some (Return \<lparr>success = True,
                             message = ''action completed successfully using cached step'',
                             res_action = action a\<rparr>)), w3)"
      by (simp add: replay_split andThen_def ret_def)
    from step[OF this] show "act_step H E a w =
              (Inr (Return \<lparr>success = True,
                             message = ''action completed successfully using cached step'',
                             res_action = action a\<rparr>), w3)" .
  }
  {
    fix e w2
    assume p: "performPlaywrightMethod E (pc_method (cs_playwrightCommand cs))
                    (map (\<lambda>arg. JString (fillInVariables E arg (variables a)))
                       (pc_args (cs_playwrightCommand cs))) x (domSettleTimeoutMs a) w1 =
                  (Inl e, w2)"
    let ?obj = "cacheObjOf E a (afterInit a w)"
    let ?w' = "emit (EvRemoveActionStep ?obj)
                 (w2\<lparr>actionCache := (actionCache w2)(keyOfObj ?obj := None)\<rparr>)"
    have "act_try H E a w = (Inr (Recurse (a\<lparr>skipActionCacheForThisStep := True\<rparr>)), ?w')"
      using tr replay_command_raises[OF p, of H]
      by (simp add: andThen_def tryCatch_def ret_def removeActionStep_def)
    from act_step_of_try[OF this]
    have "act_step H E a w = (Inr (Recurse (a\<lparr>skipActionCacheForThisStep := True\<rparr>)), ?w')"
      by auto
    moreover have "trace ?w' = trace w2 @ [EvRemoveActionStep ?obj]" by (simp add: emit_def)
    moreover have "actionCache ?w' (keyOfObj ?obj) = None" by (simp add: emit_def)
    ultimately show "\<exists>w'. act_step H E a w =
                    (Inr (Recurse (a\<lparr>skipActionCacheForThisStep := True\<rparr>)), w') \<and>
                  trace w' = trace w2 @ [EvRemoveActionStep ?obj] \<and>
                  actionCache w' (keyOfObj ?obj) = None"
      by blast
  }
  {
    fix wn
    from getValid_member[OF assms(5)] have "cs_xpaths cs \<noteq> []" by auto
    from key_grows[OF this]
    show "keyOfObj (cacheObjOf E
                  (a\<lparr>steps := steps a @ cs_newStepString cs,
                     previousSelectors := previousSelectors a @ take 1 (cs_xpaths cs),
                     skipActionCacheForThisStep := False\<rparr>) wn) \<noteq>
               keyOfObj (cacheObjOf E a (afterInit a w))" .
  }
  {
    fix wn
    have "silent is_lookup_ev (act_step H E (a\<lparr>skipActionCacheForThisStep := True\<rparr>))"
      by (rule silent_act_step_skip) simp
    then obtain evs where
      "trace (snd (act_step H E (a\<lparr>skipActionCacheForThisStep := True\<rparr>) wn)) = trace wn @ evs"
      "filter is_lookup_ev evs = []"
      unfolding silent_def by blast
    then show "filter is_lookup_ev
                  (since wn (snd (act_step H E (a\<lparr>skipActionCacheForThisStep := True\<rparr>) wn))) = []"
      by simp
  }
qed

lemmas replay_defs = denyEnv_def fillDownEnv_def movedStep_def movedWorld_def

theorem cached_replay_fallthrough_witness:
  "enableCaching demoHandler \<and> \<not> skipActionCacheForThisStep cachedArgs \<and>
   initSucceeds denyEnv cachedArgs movedWorld \<and>
   actionCache movedWorld
     (keyOfObj (cacheObjOf denyEnv cachedArgs (afterInit cachedArgs movedWorld))) = Some movedStep \<and>
   cs_completed movedStep \<and>
   (\<exists>w1 w2 w3.
      getValidCachedStepXpath denyEnv (cs_xpaths movedStep) (cs_componentString movedStep)
        (emit (EvGetActionStep (cacheObjOf denyEnv cachedArgs (afterInit cachedArgs movedWorld)))
           (afterInit cachedArgs movedWorld)) = (Inr (Some ''//button[1]''), w1) \<and>
      replay_execute demoHandler denyEnv cachedArgs movedStep ''//button[1]'' w1 = (Inr (), w2) \<and>
      verifyActionCompletion denyEnv True (verifierUseVision cachedArgs) (requestId cachedArgs)
        (action cachedArgs) (steps cachedArgs @ cs_newStepString movedStep) (llmClient cachedArgs)
        (domSettleTimeoutMs cachedArgs) w2 = (Inr False, w3) \<and>
      act_step demoHandler denyEnv cachedArgs movedWorld =
        (Inr (Recurse (cachedArgs\<lparr>steps := ''## Step: type the user name'',
                                 previousSelectors := [''//gone''],
                                 skipActionCacheForThisStep := False\<rparr>)), w3)) \<and>
   keyOfObj (cacheObjOf denyEnv
      (cachedArgs\<lparr>steps := ''## Step: type the user name'', previousSelectors := [''//gone''],
                  skipActionCacheForThisStep := False\<rparr>) movedWorld) \<noteq>
     (''https://shop.example/'', ''submit the form'', []) \<and>
   filter is_lookup_ev (since emptyWorld
     (snd (act_step demoHandler denyEnv (cachedArgs\<lparr>skipActionCacheForThisStep := True\<rparr>)
        emptyWorld))) = [] \<and>
   initSucceeds fillDownEnv cachedArgs cachedWorld \<and>
   (\<exists>w1 w2 w'.
      getValidCachedStepXpath fillDownEnv (cs_xpaths demoStep) (cs_componentString demoStep)
        (emit (EvGetActionStep (cacheObjOf fillDownEnv cachedArgs (afterInit cachedArgs cachedWorld)))
           (afterInit cachedArgs cachedWorld)) = (Inr (Some ''//button[1]''), w1) \<and>
      performPlaywrightMethod fillDownEnv ''fill'' [JString ''alice''] ''//button[1]''
        (domSettleTimeoutMs cachedArgs) w1 =
        (Inl (PlaywrightCommandException ''element is detached''), w2) \<and>
      act_step demoHandler fillDownEnv cachedArgs cachedWorld =
        (Inr (Recurse (cachedArgs\<lparr>skipActionCacheForThisStep := True\<rparr>)), w') \<and>
      actionCache w' (''https://shop.example/'', ''submit the form'', []) = None)"
proof -
  let ?w0 = "afterInit cachedArgs movedWorld"
  let ?obj = "cacheObjOf denyEnv cachedArgs ?w0"
  let ?g = "getValidCachedStepXpath denyEnv (cs_xpaths movedStep)
      (cs_componentString movedStep) (emit (EvGetActionStep ?obj) ?w0)"
  let ?w1 = "snd ?g"
  let ?x = "replay_execute demoHandler denyEnv cachedArgs movedStep ''//button[1]'' ?w1"
  let ?w2 = "snd ?x"
  let ?v = "verifyActionCompletion denyEnv True (verifierUseVision cachedArgs) (requestId cachedArgs)
        (action cachedArgs) (steps cachedArgs @ cs_newStepString movedStep) (llmClient cachedArgs)
        (domSettleTimeoutMs cachedArgs) ?w2"
  have h1: "enableCaching demoHandler" by (simp add: demo_defs)
  have h2: "\<not> skipActionCacheForThisStep cachedArgs" by (simp add: cached_defs demo_defs)
  have h3: "initSucceeds denyEnv cachedArgs movedWorld"
    by (simp add: initSucceeds_def replay_defs cached_defs demo_defs)
  have k: "keyOfObj ?obj = (''https://shop.example/'', ''submit the form'', [])"
    by (simp add: keyOfObj_def cacheObjOf_def replay_defs cached_defs demo_defs)
  have h4: "actionCache movedWorld (keyOfObj ?obj) = Some movedStep"
    unfolding k by (simp add: movedWorld_def)
  have cp: "cs_completed movedStep" by (simp add: replay_defs cached_defs)
  have "fst ?g = Inr (Some ''//button[1]'')"
    by (simp add: io_defs handler_defs replay_defs cached_defs demo_defs fingerprint_defs
          afterInit_def)
  then have h5: "?g = (Inr (Some ''//button[1]''), ?w1)" by (simp add: prod_eq_iff)
  have h6: "''//button[1]'' \<noteq> []" by simp
  have "fst ?x = Inr ()"
    by (simp add: replay_execute_def io_defs handler_defs replay_defs cached_defs demo_defs Let_def)
  then have x: "?x = (Inr (), ?w2)" by (simp add: prod_eq_iff)
  have "fst ?v = Inr False"
    by (simp add: io_defs verifyActionCompletion_def replay_defs cached_defs demo_defs)
  then have v: "?v = (Inr False, snd ?v)" by (simp add: prod_eq_iff)
  have flds: "steps cachedArgs @ cs_newStepString movedStep = ''## Step: type the user name''"
    "previousSelectors cachedArgs @ take 1 (cs_xpaths movedStep) = [''//gone'']"
    by (simp_all add: replay_defs cached_defs demo_defs)
  note t = cached_replay_fallthrough[OF h1 h2 h3 h4 h5 h6]
  from t[THEN conjunct1, rule_format, OF conjI[OF x conjI[OF cp v]]]
  have r1: "act_step demoHandler denyEnv cachedArgs movedWorld =
        (Inr (Recurse (cachedArgs\<lparr>steps := ''## Step: type the user name'',
                                 previousSelectors := [''//gone''],
                                 skipActionCacheForThisStep := False\<rparr>)), snd ?v)"
    unfolding flds .
  from t[THEN conjunct2, THEN conjunct2, THEN conjunct2, THEN conjunct2, THEN conjunct1,
      rule_format, of movedWorld]
  have r2: "keyOfObj (cacheObjOf denyEnv
      (cachedArgs\<lparr>steps := ''## Step: type the user name'', previousSelectors := [''//gone''],
                  skipActionCacheForThisStep := False\<rparr>) movedWorld) \<noteq>
     (''https://shop.example/'', ''submit the form'', [])"
    unfolding k flds .
  from t[THEN conjunct2, THEN conjunct2, THEN conjunct2, THEN conjunct2, THEN conjunct2,
      rule_format, of emptyWorld]
  have r3: "filter is_lookup_ev (since emptyWorld
     (snd (act_step demoHandler denyEnv (cachedArgs\<lparr>skipActionCacheForThisStep := True\<rparr>)
        emptyWorld))) = []" .
  let ?u0 = "afterInit cachedArgs cachedWorld"
  let ?ubj = "cacheObjOf fillDownEnv cachedArgs ?u0"
  let ?ug = "getValidCachedStepXpath fillDownEnv (cs_xpaths demoStep)
      (cs_componentString demoStep) (emit (EvGetActionStep ?ubj) ?u0)"
  let ?u1 = "snd ?ug"
  let ?p = "performPlaywrightMethod fillDownEnv ''fill'' [JString ''alice''] ''//button[1]''
        (domSettleTimeoutMs cachedArgs) ?u1"
  have g3: "initSucceeds fillDownEnv cachedArgs cachedWorld"
    by (simp add: initSucceeds_def replay_defs cached_defs demo_defs)
  have uk: "keyOfObj ?ubj = (''https://shop.example/'', ''submit the form'', [])"
    by (simp add: keyOfObj_def cacheObjOf_def replay_defs cached_defs demo_defs)
  have g4: "actionCache cachedWorld (keyOfObj ?ubj) = Some demoStep"
    unfolding uk by (simp add: cachedWorld_def)
  have "fst ?ug = Inr (Some ''//button[1]'')"
    by (simp add: io_defs handler_defs replay_defs cached_defs demo_defs fingerprint_defs
          afterInit_def)
  then have g5: "?ug = (Inr (Some ''//button[1]''), ?u1)" by (simp add: prod_eq_iff)
  have "fst ?p = Inl (PlaywrightCommandException ''element is detached'')"
    by (simp add: io_defs handler_defs replay_defs cached_defs demo_defs)
  then have p: "?p = (Inl (PlaywrightCommandException ''element is detached''), snd ?p)"
    by (simp add: prod_eq_iff)
  have cmd: "pc_method (cs_playwrightCommand demoStep) = ''fill''"
    "map (\<lambda>arg. JString (fillInVariables fillDownEnv arg (variables cachedArgs)))
       (pc_args (cs_playwrightCommand demoStep)) = [JString ''alice'']"
    by (simp_all add: replay_defs cached_defs demo_defs)
  note u = cached_replay_fallthrough[OF h1 h2 g3 g4 g5 h6]
  from u[THEN conjunct2, THEN conjunct2, THEN conjunct2, THEN conjunct1, rule_format,
      unfolded cmd, OF p]
  obtain w' where r4: "act_step demoHandler fillDownEnv cachedArgs cachedWorld =
        (Inr (Recurse (cachedArgs\<lparr>skipActionCacheForThisStep := True\<rparr>)), w')"
      "actionCache w' (keyOfObj ?ubj) = None"
    by blast
  from r4(2) have r4': "actionCache w' (''https://shop.example/'', ''submit the form'', []) = None"
    unfolding uk .
  from h1 h2 h3 h4[unfolded k] cp h5 x v r1 r2 r3 g3 g5 p r4(1) r4' show ?thesis
    unfolding k by blast
qed

theorem cached_replay_flag_counterexample:
  "fst (act_step demoHandler denyEnv cachedArgs movedWorld) =
     Inr (Recurse (cachedArgs\<lparr>steps := ''## Step: type the user name'',
                              previousSelectors := [''//gone''],
                              skipActionCacheForThisStep := False\<rparr>)) \<and>
   filter is_perform_ev (trace (snd (act_step demoHandler denyEnv cachedArgs movedWorld))) =
     [EvPerform ''fill'' [JString ''alice''] ''//button[1]''] \<and>
   length (filter is_verify_ev (trace (snd (act_step demoHandler denyEnv cachedArgs movedWorld)))) = 1 \<and>
   fst (act_step demoHandler fillDownEnv cachedArgs cachedWorld) =
     Inr (Recurse (cachedArgs\<lparr>skipActionCacheForThisStep := True\<rparr>)) \<and>
   previousSelectors (cachedArgs\<lparr>skipActionCacheForThisStep := True\<rparr>) = [] \<and>
   filter is_perform_ev (trace (snd (act_step demoHandler fillDownEnv cachedArgs cachedWorld))) =
     [EvPerform ''fill'' [JString ''alice''] ''//button[1]''] \<and>
   EvPage ''locator.click'' [''//button[1]''] \<notin>
     set (trace (snd (act_step demoHandler fillDownEnv cachedArgs cachedWorld)))"
  by (simp add: io_defs handler_defs replay_defs cached_defs demo_defs fingerprint_defs
        is_perform_ev_def is_verify_ev_def Let_def)

lemma page_only_add [simp]: "page_only is_add_ev"
  by (simp add: page_only_def is_add_ev_def)

text \<open>What a resolved and executed fresh step leaves behind.\<close>

lemma act_execute_events:
  assumes "act_execute H E a pd r w = (Inr (stps, x), w1)"
  shows "\<exists>xpaths sfx s.
           selectorMap pd (r_element r) = Some xpaths \<and> x \<in> set xpaths \<and>
           sfx \<noteq> [] \<and> stps = steps a @ sfx \<and>
           filter is_perform_ev (since w w1) =
             [EvPerform (r_method r) (substituteArgs E (variables a) (r_args r)) x] \<and>
           cs_playwrightCommand s =
             \<lparr>pc_method = r_method r, pc_args = map toStringOrEmpty (r_args r)\<rparr> \<and>
           cs_xpaths s = xpaths \<and> cs_completed s = r_completed r \<and>
           keyOfStep s = (cs_url s, action a, previousSelectors a) \<and>
           filter is_add_ev (since w w1) = (if enableCaching H then [EvAddActionStep s] else []) \<and>
           trace w1 = trace w @ since w w1"
proof -
  from assms obtain xpaths wa cstr wb wc wd url0 urlN s where
    xs: "selectorMap pd (r_element r) = Some xpaths" and
    f: "findXpath E xpaths w = (Inr (Some x), wa)" and
    g: "getComponentString_op E x wa = (Inr cstr, wb)" and
    p: "performPlaywrightMethod E (r_method r) (substituteArgs E (variables a) (r_args r)) x
          (domSettleTimeoutMs a) wb = (Inr (), wc)" and
    s: "s = \<lparr>cs_action = action a, cs_url = url0,
           cs_previousSelectors = previousSelectors a,
           cs_playwrightCommand =
             \<lparr>pc_method = r_method r, pc_args = map toStringOrEmpty (r_args r)\<rparr>,
           cs_componentString = cstr,
           cs_requestId = requestId a, cs_xpaths = xpaths,
           cs_newStepString = newStepStringOf (steps a) r
                       (elementTextOf (outputString pd) (r_element r)),
           cs_completed = r_completed r\<rparr>" and
    c: "(if enableCaching H then addActionStep s else ret ()) wc = (Inr (), wd)" and
    rc: "recordActionIfEnabled H s wd = (Inr (), w1)" and
    stps: "stps = steps a @ newStepStringOf (steps a) r
                       (elementTextOf (outputString pd) (r_element r)) @
                     urlChangeNote (pageUrl E (trace w)) urlN"
    unfolding act_execute_def
    by (auto elim!: andThen_InrE simp: getUrl_def raise_def ret_def Let_def
          split: option.splits if_splits)
  let ?s = s
  define sfx where "sfx = newStepStringOf (steps a) r
      (elementTextOf (outputString pd) (r_element r)) @ urlChangeNote (pageUrl E (trace w)) urlN"
  have sfx: "sfx \<noteq> []" "stps = steps a @ sfx" by (simp_all add: sfx_def stps)
  from silentD[OF silent_findXpath[OF page_only_perform] f]
    silentD[OF silent_findXpath[OF page_only_add] f]
  obtain e0 where e0: "trace wa = trace w @ e0" "filter is_perform_ev e0 = []"
    "filter is_add_ev e0 = []" by auto
  from silentD[OF silent_getComponentString_op g, of is_perform_ev]
    silentD[OF silent_getComponentString_op g, of is_add_ev]
  obtain e1 where e1: "trace wb = trace wa @ e1" "filter is_perform_ev e1 = []"
    "filter is_add_ev e1 = []"
    by (auto simp: is_perform_ev_def is_add_ev_def)
  from emits_firstD[OF emits_first_perform p]
  obtain e2 where e2: "trace wc = trace wb @
      EvPerform (r_method r) (substituteArgs E (variables a) (r_args r)) x # e2"
      "filter is_perform_ev e2 = []" by blast
  have "silent is_add_ev (performPlaywrightMethod E (r_method r)
      (substituteArgs E (variables a) (r_args r)) x (domSettleTimeoutMs a))"
    by (rule silent_performBody) (simp_all add: is_add_ev_def)
  from silentD[OF this p] e2(1)
  have e2a: "filter is_add_ev e2 = []" by (auto simp: is_add_ev_def)
  from c have e3: "trace wd = trace wc @ (if enableCaching H then [EvAddActionStep ?s] else [])"
    by (auto simp: addActionStep_def ret_def emit_def split: if_splits)
  from rc obtain e4 where e4: "trace w1 = trace wd @ e4" "filter is_perform_ev e4 = []"
    "filter is_add_ev e4 = []"
    by (auto simp: recordActionIfEnabled_def emit_def is_perform_ev_def is_add_ev_def
          split: if_splits)
  have tr: "since w w1 = e0 @ e1 @ EvPerform (r_method r)
      (substituteArgs E (variables a) (r_args r)) x # e2 @
      (if enableCaching H then [EvAddActionStep ?s] else []) @ e4"
    using e0(1) e1(1) e2(1) e3(1) e4(1) by (simp add: since_def)
  have pf: "filter is_perform_ev (since w w1) =
      [EvPerform (r_method r) (substituteArgs E (variables a) (r_args r)) x]"
    unfolding tr using e0 e1 e2 e4 by (simp add: is_perform_ev_def)
  have af: "filter is_add_ev (since w w1) = (if enableCaching H then [EvAddActionStep ?s] else [])"
    unfolding tr using e0 e1 e2a e4 by (simp add: is_add_ev_def)
  have c1: "cs_playwrightCommand ?s =
             \<lparr>pc_method = r_method r, pc_args = map toStringOrEmpty (r_args r)\<rparr>"
    "cs_xpaths ?s = xpaths" "cs_completed ?s = r_completed r"
    "keyOfStep ?s = (cs_url ?s, action a, previousSelectors a)"
    by (simp_all add: keyOfStep_def s)
  have ext: "trace w1 = trace w @ since w w1"
    using e0(1) e1(1) e2(1) e3(1) e4(1) by (simp add: since_def)
  from xs findXpath_member[OF f] sfx pf af c1 ext show ?thesis by blast
qed

lemma act_try_started:
  assumes "freshMode H a" "initSucceeds E a w"
  shows "act_try H E a w = act_fresh H E a (afterInit a w)"
  using assms
  by (auto simp: act_try_def freshMode_def initSucceeds_def afterInit_def andThen_def
        waitForSettledDom_def page_op_def emit_def initEvents_def)

text \<open>
  C9 (as amended). A fresh step is decided by the oracle, its selector resolves and its
  command runs, and the verification reports that the goal is not completed (or the
  step does not claim completion). Then act recurses with the selector that the
  command ran on appended to the chain of previous selectors, the narrative grown by
  the fragment of this step, the bypass flag cleared, and the retry counter back at 0:
  the recursion does not pass the counter on.
\<close>

theorem fresh_step_continue:
  assumes "freshMode H a" "initSucceeds E a w"
    and "consultOracle H E (downgradeVision a) (afterInit a w) = (Inr (pd, Some r), w1)"
    and "act_execute H E (downgradeVision a) pd r w1 = (Inr (stps, x), w2)"
    and "tryCatch (verifyActionCompletion E (r_completed r)
             (verifierUseVision (downgradeVision a)) (requestId a) (action a) stps
             (llmClient a) (domSettleTimeoutMs a)) (\<lambda>error. ret True) w2 = (Inr False, w3)"
  shows "act_step H E a w =
           (Inr (Recurse ((downgradeVision a)\<lparr>steps := stps,
                    previousSelectors := previousSelectors a @ [x],
                    skipActionCacheForThisStep := False, retries := 0\<rparr>)), w3) \<and>
         (\<exists>sfx. sfx \<noteq> [] \<and> stps = steps a @ sfx) \<and>
         (\<exists>xpaths. selectorMap pd (r_element r) = Some xpaths \<and> x \<in> set xpaths) \<and>
         filter is_perform_ev (since w1 w2) =
           [EvPerform (r_method r) (substituteArgs E (variables a) (r_args r)) x]"
proof -
  let ?a = "downgradeVision a"
  have "act_inner H E ?a pd r w1 =
      (Inr (Recurse (?a\<lparr>steps := stps, previousSelectors := previousSelectors a @ [x],
                         skipActionCacheForThisStep := False, retries := 0\<rparr>)), w3)"
    using assms(4,5)
    by (simp add: act_inner_split andThen_def act_conclude_def ret_def)
  then have "act_fresh H E a (afterInit a w) =
      (Inr (Recurse (?a\<lparr>steps := stps, previousSelectors := previousSelectors a @ [x],
                         skipActionCacheForThisStep := False, retries := 0\<rparr>)), w3)"
    using assms(3) by (simp add: act_fresh_consult andThen_def tryCatch_def)
  then have "act_try H E a w =
      (Inr (Recurse (?a\<lparr>steps := stps, previousSelectors := previousSelectors a @ [x],
                         skipActionCacheForThisStep := False, retries := 0\<rparr>)), w3)"
    using act_try_started[OF assms(1,2)] by simp
  from act_step_of_try[OF this]
  have st: "act_step H E a w =
      (Inr (Recurse (?a\<lparr>steps := stps, previousSelectors := previousSelectors a @ [x],
                         skipActionCacheForThisStep := False, retries := 0\<rparr>)), w3)"
    by auto
  from act_execute_events[OF assms(4)] obtain xpaths sfx where
    "selectorMap pd (r_element r) = Some xpaths" "x \<in> set xpaths" "sfx \<noteq> []"
    "stps = steps ?a @ sfx"
    "filter is_perform_ev (since w1 w2) =
       [EvPerform (r_method r) (substituteArgs E (variables ?a) (r_args r)) x]"
    by blast
  with st show ?thesis by auto
qed

theorem fresh_step_continue_witness:
  "freshMode demoHandler retriedArgs \<and> initSucceeds refuseEnv retriedArgs emptyWorld \<and>
   (\<exists>w1 stps w2 w3.
      consultOracle demoHandler refuseEnv (downgradeVision retriedArgs)
        (afterInit retriedArgs emptyWorld) = (Inr (demoDom, Some demoResponse), w1) \<and>
      act_execute demoHandler refuseEnv (downgradeVision retriedArgs) demoDom demoResponse w1 =
        (Inr (stps, ''/html/body/form/button''), w2) \<and>
      tryCatch (verifyActionCompletion refuseEnv (r_completed demoResponse)
             (verifierUseVision (downgradeVision retriedArgs)) (requestId retriedArgs)
             (action retriedArgs) stps (llmClient retriedArgs) (domSettleTimeoutMs retriedArgs))
        (\<lambda>error. ret True) w2 = (Inr False, w3) \<and>
      act_step demoHandler refuseEnv retriedArgs emptyWorld =
        (Inr (Recurse ((downgradeVision retriedArgs)\<lparr>steps := stps,
                 previousSelectors := [''/html/body/form/button''],
                 skipActionCacheForThisStep := False, retries := 0\<rparr>)), w3) \<and>
      filter is_perform_ev (since w1 w2) = [EvPerform ''click'' [] ''/html/body/form/button''])"
proof -
  let ?a = "downgradeVision retriedArgs"
  let ?c = "consultOracle demoHandler refuseEnv ?a (afterInit retriedArgs emptyWorld)"
  let ?w1 = "snd ?c"
  let ?e = "act_execute demoHandler refuseEnv ?a demoDom demoResponse ?w1"
  let ?stps = "fst (projr (fst ?e))"
  let ?w2 = "snd ?e"
  let ?v = "tryCatch (verifyActionCompletion refuseEnv (r_completed demoResponse)
             (verifierUseVision ?a) (requestId retriedArgs)
             (action retriedArgs) ?stps (llmClient retriedArgs) (domSettleTimeoutMs retriedArgs))
        (\<lambda>error. ret True) ?w2"
  have h1: "freshMode demoHandler retriedArgs"
    by (simp add: freshMode_def retriedArgs_def demo_defs)
  have h2: "initSucceeds refuseEnv retriedArgs emptyWorld"
    by (simp add: initSucceeds_def refuseEnv_def retriedArgs_def demo_defs)
  have "fst ?c = Inr (demoDom, Some demoResponse)"
    by (simp add: consultOracle_def io_defs handler_defs refuseEnv_def retriedArgs_def demo_defs
          afterInit_def)
  then have h3: "?c = (Inr (demoDom, Some demoResponse), ?w1)" by (simp add: prod_eq_iff)
  have "\<exists>stps. fst ?e = Inr (stps, ''/html/body/form/button'')"
    by (simp add: act_execute_def consultOracle_def io_defs handler_defs refuseEnv_def
          retriedArgs_def demo_defs afterInit_def Let_def)
  then have h4: "?e = (Inr (?stps, ''/html/body/form/button''), ?w2)"
    by (auto simp: prod_eq_iff)
  have "fst ?v = Inr False"
    by (simp add: io_defs verifyActionCompletion_def refuseEnv_def retriedArgs_def demo_defs)
  then have h5: "?v = (Inr False, snd ?v)" by (simp add: prod_eq_iff)
  have flds: "previousSelectors retriedArgs = []" "r_method demoResponse = ''click''"
    "substituteArgs refuseEnv (variables retriedArgs) (r_args demoResponse) = []"
    "requestId ?a = requestId retriedArgs" "action ?a = action retriedArgs"
    "llmClient ?a = llmClient retriedArgs" "domSettleTimeoutMs ?a = domSettleTimeoutMs retriedArgs"
    by (simp_all add: retriedArgs_def demo_defs substituteArgs_def)
  from fresh_step_continue[OF h1 h2 h3 h4 h5]
  have "act_step demoHandler refuseEnv retriedArgs emptyWorld =
        (Inr (Recurse (?a\<lparr>steps := ?stps,
                 previousSelectors := [''/html/body/form/button''],
                 skipActionCacheForThisStep := False, retries := 0\<rparr>)), snd ?v)"
    "filter is_perform_ev (since ?w1 ?w2) = [EvPerform ''click'' [] ''/html/body/form/button'']"
    by (simp_all add: flds)
  with h1 h2 h3 h4 h5 show ?thesis by blast
qed

theorem continue_resets_retries_counterexample:
  "retries retriedArgs = 1 \<and>
   map_option retries (recursionOf (fst (act_step demoHandler refuseEnv retriedArgs emptyWorld))) =
     Some 0 \<and>
   map_option previousSelectors
     (recursionOf (fst (act_step demoHandler refuseEnv retriedArgs emptyWorld))) =
     Some [''/html/body/form/button''] \<and>
   filter is_perform_ev (trace (snd (act_step demoHandler refuseEnv retriedArgs emptyWorld))) =
     [EvPerform ''click'' [] ''/html/body/form/button''] \<and>
   length (filter is_verify_ev
     (trace (snd (act_step demoHandler refuseEnv retriedArgs emptyWorld)))) = 1"
  by (simp add: io_defs handler_defs refuseEnv_def retriedArgs_def demo_defs fingerprint_defs
        recursionOf_def is_perform_ev_def is_verify_ev_def Let_def)

lemma storedArgs_filter: "storedArgs (filter is_add_ev evs) = storedArgs evs"
  by (induction evs) (auto simp: storedArgs_def is_add_ev_def split: event.splits)

lemma storedArgs_execute:
  assumes "act_execute H E a pd r w = (Inr (stps, x), w1)"
  shows "storedArgs (since w w1) =
           (if enableCaching H then [map toStringOrEmpty (r_args r)] else [])"
proof -
  from act_execute_events[OF assms] obtain s where
    "cs_playwrightCommand s = \<lparr>pc_method = r_method r, pc_args = map toStringOrEmpty (r_args r)\<rparr>"
    "filter is_add_ev (since w w1) = (if enableCaching H then [EvAddActionStep s] else [])"
    by blast
  then have "storedArgs (filter is_add_ev (since w w1)) =
      (if enableCaching H then [map toStringOrEmpty (r_args r)] else [])"
    by (simp add: storedArgs_def)
  then show ?thesis by (simp add: storedArgs_filter)
qed

lemma replay_performs:
  "filter is_perform_ev (since w (snd (replayCachedStep H E a cs x w))) =
     [EvPerform (pc_method (cs_playwrightCommand cs))
        (map (\<lambda>arg. JString (fillInVariables E arg (variables a)))
           (pc_args (cs_playwrightCommand cs))) x]"
proof -
  obtain r w' where r: "replayCachedStep H E a cs x w = (r, w')"
    by (cases "replayCachedStep H E a cs x w")
  from emits_firstD[OF emits_first_replay r] obtain evs where
    "trace w' = trace w @ EvPerform (pc_method (cs_playwrightCommand cs))
        (map (\<lambda>arg. JString (fillInVariables E arg (variables a)))
           (pc_args (cs_playwrightCommand cs))) x # evs"
    "filter is_perform_ev evs = []" by blast
  with r show ?thesis by (simp add: since_def is_perform_ev_def)
qed

lemma page_only_others [simp]: "page_only (storesOther cmd)" "page_only (performsOther m args)"
  by (simp_all add: page_only_def storesOther_def performsOther_def)

lemma silent_act_inner_stores:
  "silent (storesOther \<lparr>pc_method = r_method r, pc_args = map toStringOrEmpty (r_args r)\<rparr>)
     (act_inner H E a pd r)"
  unfolding act_inner_def Let_def
  by (intro silent_intros silent_if silent_case_option silent_findXpath silent_performBody
        silent_verifyActionCompletion page_only_others
        page_onlyD[OF page_only_others(1)])
     (simp_all add: storesOther_def)

lemma silent_act_inner_performs:
  "silent (performsOther (r_method r) (substituteArgs E (variables a) (r_args r)))
     (act_inner H E a pd r)"
  unfolding act_inner_def Let_def
  by (intro silent_intros silent_if silent_case_option silent_findXpath silent_performBody
        silent_verifyActionCompletion page_only_others
        page_onlyD[OF page_only_others(2)])
     (simp_all add: performsOther_def)

lemma silent_act_conclude:
  assumes "\<And>g res. \<not> c (EvRecordAction g res)"
  shows "silent c (act_conclude a r p b)"
  unfolding act_conclude_def
  by (intro silent_intros silent_if assms)

lemma act_inner_tail:
  assumes "act_inner H E a pd r w = (Inr out, w')"
  shows "\<exists>p w1 evs. act_execute H E a pd r w = (Inr p, w1) \<and> trace w' = trace w1 @ evs \<and>
           filter is_perform_ev evs = [] \<and> filter is_add_ev evs = []"
proof -
  from assms obtain p w1 where ex: "act_execute H E a pd r w = (Inr p, w1)"
    and rest: "andThen (tryCatch (verifyActionCompletion E (r_completed r) (verifierUseVision a)
                (requestId a) (action a) (fst p) (llmClient a) (domSettleTimeoutMs a))
              (\<lambda>error. ret True)) (act_conclude a r p) w1 = (Inr out, w')"
    unfolding act_inner_split by (erule andThen_InrE)
  have s: "silent c (andThen (tryCatch (verifyActionCompletion E (r_completed r) (verifierUseVision a)
                (requestId a) (action a) (fst p) (llmClient a) (domSettleTimeoutMs a))
              (\<lambda>error. ret True)) (act_conclude a r p))"
    if "page_only c" for c
    by (intro silent_andThen silent_tryCatch silent_verifyActionCompletion silent_ret
          silent_act_conclude that page_onlyD[OF that])
  from silentD[OF s[OF page_only_perform] rest] silentD[OF s[OF page_only_add] rest]
  obtain evs where "trace w' = trace w1 @ evs" "filter is_perform_ev evs = []"
    "filter is_add_ev evs = []" by auto
  with ex show ?thesis by blast
qed

lemma act_inner_events:
  assumes "act_inner H E a pd r w = (Inr out, w')"
  shows "(\<exists>x. filter is_perform_ev (since w w') =
                [EvPerform (r_method r) (substituteArgs E (variables a) (r_args r)) x]) \<and>
         storedArgs (since w w') =
           (if enableCaching H then [map toStringOrEmpty (r_args r)] else [])"
proof -
  from act_inner_tail[OF assms] obtain p w1 evs where
    ex: "act_execute H E a pd r w = (Inr p, w1)" and tl: "trace w' = trace w1 @ evs"
      "filter is_perform_ev evs = []" "filter is_add_ev evs = []" by blast
  obtain stps x where p: "p = (stps, x)" by (cases p)
  from act_execute_events[OF ex[unfolded p]] obtain s where
    pf: "filter is_perform_ev (since w w1) =
           [EvPerform (r_method r) (substituteArgs E (variables a) (r_args r)) x]"
    and sc: "cs_playwrightCommand s =
           \<lparr>pc_method = r_method r, pc_args = map toStringOrEmpty (r_args r)\<rparr>"
    and af: "filter is_add_ev (since w w1) = (if enableCaching H then [EvAddActionStep s] else [])"
    and e0: "trace w1 = trace w @ since w w1"
    by blast
  have "trace w' = trace w @ (since w w1 @ evs)" using e0 tl(1) by (metis append.assoc)
  then have sw: "since w w' = since w w1 @ evs" by (rule since_append)
  have "filter is_perform_ev (since w w') =
      [EvPerform (r_method r) (substituteArgs E (variables a) (r_args r)) x]"
    unfolding sw using pf tl(2) by simp
  moreover have "storedArgs (filter is_add_ev (since w w')) =
      (if enableCaching H then [map toStringOrEmpty (r_args r)] else [])"
    unfolding sw using af tl(3) sc by (simp add: storedArgs_def)
  ultimately show ?thesis by (auto simp: storedArgs_filter)
qed

lemma silent_consultOracle:
  assumes "page_only c" "\<And>inp. \<not> c (EvAct inp)"
  shows "silent c (consultOracle H E a)"
  unfolding consultOracle_def
  by (intro silent_intros silent_if assms page_onlyD[OF assms(1)])

lemma act_step_decided:
  assumes "freshMode H a" "initSucceeds E a w0"
    and "consultOracle H E (downgradeVision a) (afterInit a w0) = (Inr (pd, Some rsp), w)"
    and "act_inner H E (downgradeVision a) pd rsp w = (Inr out, w')"
  shows "act_step H E a w0 = (Inr out, w')"
    and "\<exists>evs. trace w = trace w0 @ evs \<and> filter is_perform_ev evs = [] \<and>
           filter is_add_ev evs = []"
proof -
  have "act_try H E a w0 = (Inr out, w')"
    using act_try_started[OF assms(1,2)] assms(3,4)
    by (simp add: act_fresh_consult andThen_def tryCatch_def)
  from act_step_of_try[OF this] show "act_step H E a w0 = (Inr out, w')" by auto
  have "silent c (consultOracle H E (downgradeVision a))" if "page_only c" "\<And>inp. \<not> c (EvAct inp)"
    for c
    using that by (rule silent_consultOracle)
  from silentD[OF this[of is_perform_ev] assms(3)] silentD[OF this[of is_add_ev] assms(3)]
  obtain evs where "trace w = trace (afterInit a w0) @ evs" "filter is_perform_ev evs = []"
    "filter is_add_ev evs = []"
    by (auto simp: is_perform_ev_def is_add_ev_def)
  then have "trace w = trace w0 @ (initEvents a @ evs)"
    "filter is_perform_ev (initEvents a @ evs) = []" "filter is_add_ev (initEvents a @ evs) = []"
    by (simp_all add: initEvents_def is_add_ev_def is_perform_ev_def)
  then show "\<exists>evs. trace w = trace w0 @ evs \<and> filter is_perform_ev evs = [] \<and>
           filter is_add_ev evs = []" by blast
qed

lemma act_inner_extends:
  "\<exists>evs. trace (snd (act_inner H E a pd r w)) = trace w @ evs"
  using silent_act_inner_stores[of r H E a pd] unfolding silent_def by blast

text \<open>
  C10. A fresh step that is resolved and executed (the inner block returns) has run one
  command, the method of the decision on the arguments of the decision after variable
  substitution, and has asked the cache, when caching is on, to write one record,
  whose command carries the arguments of the decision as strings, before the
  substitution; whatever the inner block does and however it ends, no other command
  is run and no other command is written. So the stored argument list is the same
  whatever variable map the call has. The same holds of the call of act that a
  decision of the oracle leads into. A replay substitutes the variables of its own
  call in the stored arguments and runs the stored method with the result.
\<close>

theorem cache_record_args_unsubstituted:
  "(act_inner H E a pd rsp w = (Inr out, w') \<longrightarrow>
      (\<exists>x. filter is_perform_ev (since w w') =
             [EvPerform (r_method rsp) (substituteArgs E (variables a) (r_args rsp)) x]) \<and>
      storedArgs (since w w') =
        (if enableCaching H then [map toStringOrEmpty (r_args rsp)] else [])) \<and>
   filter (storesOther \<lparr>pc_method = r_method rsp, pc_args = map toStringOrEmpty (r_args rsp)\<rparr>)
     (since w (snd (act_inner H E a pd rsp w))) = [] \<and>
   filter (performsOther (r_method rsp) (substituteArgs E (variables a) (r_args rsp)))
     (since w (snd (act_inner H E a pd rsp w))) = [] \<and>
   (act_inner H E a pd rsp w = (Inr out, w') \<and>
    act_inner H E (a\<lparr>variables := v\<rparr>) pd rsp w = (Inr out2, w2) \<longrightarrow>
      storedArgs (since w w') = storedArgs (since w w2)) \<and>
   (freshMode H a \<and> initSucceeds E a w0 \<and>
    consultOracle H E (downgradeVision a) (afterInit a w0) = (Inr (pd, Some rsp), w) \<and>
    act_inner H E (downgradeVision a) pd rsp w = (Inr out, w') \<longrightarrow>
      act_step H E a w0 = (Inr out, w') \<and>
      (\<exists>x. filter is_perform_ev (since w0 w') =
             [EvPerform (r_method rsp) (substituteArgs E (variables a) (r_args rsp)) x]) \<and>
      storedArgs (since w0 w') =
        (if enableCaching H then [map toStringOrEmpty (r_args rsp)] else [])) \<and>
   filter is_perform_ev (since w (snd (replayCachedStep H E a cs x w))) =
     [EvPerform (pc_method (cs_playwrightCommand cs))
        (map (\<lambda>arg. JString (fillInVariables E arg (variables a)))
           (pc_args (cs_playwrightCommand cs))) x]"
proof (intro conjI impI)
  assume i: "act_inner H E a pd rsp w = (Inr out, w')"
  from act_inner_events[OF i]
  show "\<exists>x. filter is_perform_ev (since w w') =
             [EvPerform (r_method rsp) (substituteArgs E (variables a) (r_args rsp)) x]"
    and "storedArgs (since w w') =
        (if enableCaching H then [map toStringOrEmpty (r_args rsp)] else [])"
    by blast+
next
  obtain r1 w1 where i: "act_inner H E a pd rsp w = (r1, w1)" by (cases "act_inner H E a pd rsp w")
  from silentD[OF silent_act_inner_stores i] i
  show "filter (storesOther \<lparr>pc_method = r_method rsp, pc_args = map toStringOrEmpty (r_args rsp)\<rparr>)
     (since w (snd (act_inner H E a pd rsp w))) = []"
    by auto
  from silentD[OF silent_act_inner_performs i] i
  show "filter (performsOther (r_method rsp) (substituteArgs E (variables a) (r_args rsp)))
     (since w (snd (act_inner H E a pd rsp w))) = []"
    by auto
next
  assume "act_inner H E a pd rsp w = (Inr out, w') \<and>
    act_inner H E (a\<lparr>variables := v\<rparr>) pd rsp w = (Inr out2, w2)"
  then show "storedArgs (since w w') = storedArgs (since w w2)"
    using act_inner_events[of H E a pd rsp w out w']
      act_inner_events[of H E "a\<lparr>variables := v\<rparr>" pd rsp w out2 w2]
    by simp
next
  assume h: "freshMode H a \<and> initSucceeds E a w0 \<and>
    consultOracle H E (downgradeVision a) (afterInit a w0) = (Inr (pd, Some rsp), w) \<and>
    act_inner H E (downgradeVision a) pd rsp w = (Inr out, w')"
  then have i: "act_inner H E (downgradeVision a) pd rsp w = (Inr out, w')" by simp
  from h act_step_decided[of H a E w0 pd rsp w out w']
  have st: "act_step H E a w0 = (Inr out, w')" and
    "\<exists>evs. trace w = trace w0 @ evs \<and> filter is_perform_ev evs = [] \<and> filter is_add_ev evs = []"
    by blast+
  then obtain e0 where e0: "trace w = trace w0 @ e0" "filter is_perform_ev e0 = []"
    "filter is_add_ev e0 = []" by blast
  from act_inner_extends[of H E "downgradeVision a" pd rsp w] i obtain e1 where
    e1: "trace w' = trace w @ e1" by auto
  then have s1: "since w w' = e1" by simp
  have "trace w' = trace w0 @ (e0 @ e1)" using e0(1) e1 by simp
  then have s0: "since w0 w' = e0 @ e1" by (rule since_append)
  from act_inner_events[OF i] obtain x where
    pf: "filter is_perform_ev e1 =
          [EvPerform (r_method rsp) (substituteArgs E (variables a) (r_args rsp)) x]"
    and sa: "storedArgs e1 = (if enableCaching H then [map toStringOrEmpty (r_args rsp)] else [])"
    unfolding s1 by auto
  have "storedArgs (filter is_add_ev (e0 @ e1)) = storedArgs (filter is_add_ev e1)"
    using e0(3) by simp
  then have sa0: "storedArgs (e0 @ e1) = storedArgs e1" by (simp only: storedArgs_filter)
  show "act_step H E a w0 = (Inr out, w')" by (rule st)
  show "\<exists>x. filter is_perform_ev (since w0 w') =
             [EvPerform (r_method rsp) (substituteArgs E (variables a) (r_args rsp)) x]"
    unfolding s0 using pf e0(2) by simp
  show "storedArgs (since w0 w') =
        (if enableCaching H then [map toStringOrEmpty (r_args rsp)] else [])"
    unfolding s0 sa0 by (rule sa)
next
  show "filter is_perform_ev (since w (snd (replayCachedStep H E a cs x w))) =
     [EvPerform (pc_method (cs_playwrightCommand cs))
        (map (\<lambda>arg. JString (fillInVariables E arg (variables a)))
           (pc_args (cs_playwrightCommand cs))) x]"
    by (rule replay_performs)
qed

theorem cache_record_args_unsubstituted_witness:
  "freshMode demoHandler aliceArgs \<and> initSucceeds fillEnv aliceArgs emptyWorld \<and>
   (\<exists>w out w' out2 w2.
      consultOracle demoHandler fillEnv (downgradeVision aliceArgs) (afterInit aliceArgs emptyWorld) =
        (Inr (demoDom, Some fillResponse), w) \<and>
      act_inner demoHandler fillEnv (downgradeVision aliceArgs) demoDom fillResponse w =
        (Inr out, w') \<and>
      act_inner demoHandler fillEnv ((downgradeVision aliceArgs)\<lparr>variables := [(''<|USER|>'', ''bob'')]\<rparr>)
        demoDom fillResponse w = (Inr out2, w2) \<and>
      act_step demoHandler fillEnv aliceArgs emptyWorld = (Inr out, w') \<and>
      (\<exists>x. filter is_perform_ev (since emptyWorld w') = [EvPerform ''fill'' [JString ''alice''] x]) \<and>
      storedArgs (since emptyWorld w') = [[''<|USER|>'']] \<and>
      storedArgs (since w w2) = [[''<|USER|>'']]) \<and>
   filter is_perform_ev
     (since cachedWorld
        (snd (replayCachedStep demoHandler pageEnv cachedArgs demoStep ''//button[1]'' cachedWorld))) =
     [EvPerform ''fill'' [JString ''alice''] ''//button[1]'']"
proof -
  let ?a = "downgradeVision aliceArgs"
  let ?b = "?a\<lparr>variables := [(''<|USER|>'', ''bob'')]\<rparr>"
  let ?c = "consultOracle demoHandler fillEnv ?a (afterInit aliceArgs emptyWorld)"
  let ?w = "snd ?c"
  let ?i = "act_inner demoHandler fillEnv ?a demoDom fillResponse ?w"
  let ?j = "act_inner demoHandler fillEnv ?b demoDom fillResponse ?w"
  have h1: "freshMode demoHandler aliceArgs" by (simp add: freshMode_def aliceArgs_def demo_defs)
  have h2: "initSucceeds fillEnv aliceArgs emptyWorld"
    by (simp add: initSucceeds_def fillEnv_def aliceArgs_def demo_defs)
  have en: "enableCaching demoHandler" by (simp add: demo_defs)
  have "fst ?c = Inr (demoDom, Some fillResponse)"
    by (simp add: consultOracle_def io_defs handler_defs fillEnv_def aliceArgs_def demo_defs
          afterInit_def)
  then have h3: "?c = (Inr (demoDom, Some fillResponse), ?w)" by (simp add: prod_eq_iff)
  have "\<exists>out. fst ?i = Inr out"
    by (simp add: consultOracle_def io_defs handler_defs fillEnv_def fillResponse_def aliceArgs_def
          demo_defs afterInit_def Let_def)
  then have h4: "?i = (Inr (projr (fst ?i)), snd ?i)" by (auto simp: prod_eq_iff)
  have "\<exists>out. fst ?j = Inr out"
    by (simp add: consultOracle_def io_defs handler_defs fillEnv_def fillResponse_def aliceArgs_def
          demo_defs afterInit_def Let_def)
  then have h5: "?j = (Inr (projr (fst ?j)), snd ?j)" by (auto simp: prod_eq_iff)
  have vals: "r_method fillResponse = ''fill''"
    "substituteArgs fillEnv (variables aliceArgs) (r_args fillResponse) = [JString ''alice'']"
    "map toStringOrEmpty (r_args fillResponse) = [''<|USER|>'']"
    by (simp_all add: substituteArgs_def toStringOrEmpty_def fillEnv_def fillResponse_def
          aliceArgs_def demo_defs)
  note t = cache_record_args_unsubstituted[where H = demoHandler and E = fillEnv
      and a = aliceArgs and pd = demoDom and rsp = fillResponse and ?w0.0 = emptyWorld
      and w = ?w and out = "projr (fst ?i)" and w' = "snd ?i"]
  from t[THEN conjunct2, THEN conjunct2, THEN conjunct2, THEN conjunct2, THEN conjunct1,
      THEN mp, OF conjI[OF h1 conjI[OF h2 conjI[OF h3 h4]]]] en
  have r1: "act_step demoHandler fillEnv aliceArgs emptyWorld = (Inr (projr (fst ?i)), snd ?i)"
    "\<exists>x. filter is_perform_ev (since emptyWorld (snd ?i)) = [EvPerform ''fill'' [JString ''alice''] x]"
    "storedArgs (since emptyWorld (snd ?i)) = [[''<|USER|>'']]"
    unfolding vals by simp_all
  note u = cache_record_args_unsubstituted[where H = demoHandler and E = fillEnv
      and a = "?b" and pd = demoDom and rsp = fillResponse
      and w = ?w and out = "projr (fst ?j)" and w' = "snd ?j"]
  from u[THEN conjunct1, THEN mp, OF h5] en
  have r2: "storedArgs (since ?w (snd ?j)) = [[''<|USER|>'']]"
    unfolding vals by simp
  from cache_record_args_unsubstituted[THEN conjunct2, THEN conjunct2, THEN conjunct2,
      THEN conjunct2, THEN conjunct2,
      of cachedWorld demoHandler pageEnv cachedArgs demoStep "''//button[1]''"]
  have rp: "filter is_perform_ev
     (since cachedWorld
        (snd (replayCachedStep demoHandler pageEnv cachedArgs demoStep ''//button[1]'' cachedWorld))) =
     [EvPerform ''fill'' [JString ''alice''] ''//button[1]'']"
    by (simp add: cached_defs demo_defs)
  from h1 h2 h3 h4 h5 r1 r2 rp show ?thesis by blast
qed



















end
